theory Spec2Isabelle
  imports Complex_Main "HOL-Library.Product_Lexorder" "HOL-Library.List_Lexorder"
    "HOL-Library.Char_ord" "HOL-Library.Log_Nat"
begin

section \<open>WhatsApp sessions to timesheets: the data\<close>

text \<open>
  The embedding follows \<^verbatim>\<open>wa_sesiones_a_timesheets.py\<close>. A pandas DataFrame is a list of
  rows (a record per row), a Series is a list aligned with it by position, a missing value
  (None, NaN, NaT) is \<open>None\<close>. Instants are whole seconds since the epoch: Odoo stores
  \<^verbatim>\<open>mail.message.date\<close> with the format \<^verbatim>\<open>%Y-%m-%d %H:%M:%S\<close>. A float is the rational
  it stands for. The durations and hours that end in a ledger record are rounded as the
  doubles of Python are (\<open>fl\<close>); the quotient compared with the threshold and the weights
  are kept exact.
\<close>

type_synonym timestamp = int

text \<open>Python's \<^verbatim>\<open>round(x)\<close>: to the nearest integer, a half to the even one.\<close>

definition py_round :: "rat \<Rightarrow> int" where
  "py_round x =
     (let f = \<lfloor>x\<rfloor>; d = x - of_int f
      in if d < 1 / 2 then f else if 1 / 2 < d then f + 1 else if even f then f else f + 1)"

text \<open>
  The double nearest to a rational, a tie to the even mantissa: with \<open>2 ^ e\<close> the power of
  two at or below \<open>\<bar>x\<bar>\<close>, the multiple of \<open>2 ^ (e - 52)\<close> nearest to \<open>x\<close>. Every float
  operation of the program returns \<open>fl\<close> of the exact result. Subnormal numbers and
  overflow are out of reach of minutes and hours.
\<close>

definition pow2 :: "int \<Rightarrow> rat" where
  "pow2 e = (if 0 \<le> e then 2 ^ nat e else 1 / 2 ^ nat (- e))"

definition fl :: "rat \<Rightarrow> rat" where
  "fl x =
     (if x = 0 then 0
      else (let a = \<bar>x\<bar>;
                d = bitlen (fst (quotient_of a)) - bitlen (snd (quotient_of a));
                e = (if a < pow2 d then d - 1 else d);
                u = pow2 (e - 52)
            in sgn x * of_int (py_round (a / u)) * u))"

text \<open>
  The UTC offset in seconds that the zone database gives America/Argentina/Buenos Aires at
  an instant is a table outside the program: it is the parameter \<open>tz\<close> of what follows.
\<close>

type_synonym zone = "timestamp \<Rightarrow> int"

text \<open>
  A \<^verbatim>\<open>mail.message\<close> as \<^verbatim>\<open>read\<close> returns it. \<open>m_date\<close> is the value of
  \<^verbatim>\<open>pd.to_datetime(m.get("date"), utc=True, errors="coerce")\<close>: \<open>None\<close> is NaT, an
  unparsable date. \<open>m_author_id\<close> is the many2one pair (id, display name), \<open>None\<close> when Odoo
  sends \<^verbatim>\<open>False\<close>. \<open>m_res_id\<close> is an integer; Odoo's \<^verbatim>\<open>False\<close> is \<open>0\<close> (Python has
  \<^verbatim>\<open>False == 0\<close>, also as a dict key).
\<close>

record message =
  m_id :: int
  m_date :: "timestamp option"
  m_author_id :: "(int \<times> string) option"
  m_res_id :: int

text \<open>One dict of \<^verbatim>\<open>rows\<close> (the column \<^verbatim>\<open>texto\<close> is read by nothing and left out).\<close>

record row =
  msg_id :: int
  channel_id :: int
  canal :: string
  fecha_utc :: "timestamp option"
  autor_partner_id :: "int option"
  autor :: string
  es_operador :: bool

text \<open>A row of \<^verbatim>\<open>df\<close> after \<^verbatim>\<open>dropna(subset=["fecha_utc"])\<close> and the new column
  \<^verbatim>\<open>fecha_local\<close> (the same instant in another time zone).\<close>

record drow =
  d_msg_id :: int
  d_channel_id :: int
  d_canal :: string
  fecha_local :: timestamp
  d_autor_partner_id :: "int option"
  d_autor :: string
  d_es_operador :: bool

text \<open>
  The exceptions that leave main: \<open>Fault\<close> is whatever a remote call raises, \<open>KeyError\<close>
  is raised by pandas.
\<close>

datatype error = Fault | KeyError

section \<open>Event ingestion\<close>

definition make_row :: "(int \<rightharpoonup> string) \<Rightarrow> int set \<Rightarrow> message \<Rightarrow> row" where
  "make_row ch_map internal_partner_ids m =
     \<lparr> msg_id = m_id m,
       channel_id = m_res_id m,
       canal = (case ch_map (m_res_id m) of Some n \<Rightarrow> n | None \<Rightarrow> []),
       fecha_utc = m_date m,
       autor_partner_id = (case m_author_id m of Some a \<Rightarrow> Some (fst a) | None \<Rightarrow> None),
       autor = (case m_author_id m of Some a \<Rightarrow> snd a | None \<Rightarrow> []),
       es_operador = (case m_author_id m of Some a \<Rightarrow> fst a \<in> internal_partner_ids
                      | None \<Rightarrow> False) \<rparr>"

text \<open>The loop over \<^verbatim>\<open>msgs\<close>: a message of a channel outside \<^verbatim>\<open>ch_map\<close> is skipped.\<close>

definition make_rows :: "(int \<rightharpoonup> string) \<Rightarrow> int set \<Rightarrow> message list \<Rightarrow> row list" where
  "make_rows ch_map internal_partner_ids msgs =
     map (make_row ch_map internal_partner_ids)
       (filter (\<lambda>m. ch_map (m_res_id m) \<noteq> None) msgs)"

fun dropna :: "row list \<Rightarrow> drow list" where
  "dropna [] = []"
| "dropna (r # rs) =
     (case fecha_utc r of
        None \<Rightarrow> dropna rs
      | Some t \<Rightarrow>
          \<lparr> d_msg_id = msg_id r, d_channel_id = channel_id r, d_canal = canal r,
            fecha_local = t, d_autor_partner_id = autor_partner_id r,
            d_autor = autor r, d_es_operador = es_operador r \<rparr> # dropna rs)"

text \<open>
  \<^verbatim>\<open>df.sort_values(["channel_id","fecha_local"])\<close>. With more than one key pandas sorts
  through its lexsort indexer, which is stable whatever \<^verbatim>\<open>kind\<close> says; \<open>sort_key\<close> is
  the stable insertion sort of the HOL library, on the lexicographic order of the pair.
\<close>

definition sort_values :: "drow list \<Rightarrow> drow list" where
  "sort_values df = sort_key (\<lambda>r. (d_channel_id r, fecha_local r)) df"

definition ingest :: "(int \<rightharpoonup> string) \<Rightarrow> int set \<Rightarrow> message list \<Rightarrow> drow list" where
  "ingest ch_map internal_partner_ids msgs =
     sort_values (dropna (make_rows ch_map internal_partner_ids msgs))"

section \<open>Session segmentation\<close>

text \<open>
  \<^verbatim>\<open>df.groupby("channel_id")["fecha_local"].diff()\<close>: each row minus the previous row of
  its own group, NaT for the first row of a group. \<open>prev\<close> holds the last instant seen
  in every channel.
\<close>

fun groupby_diff :: "(int \<rightharpoonup> timestamp) \<Rightarrow> drow list \<Rightarrow> int option list" where
  "groupby_diff prev [] = []"
| "groupby_diff prev (r # rs) =
     (case prev (d_channel_id r) of None \<Rightarrow> None | Some p \<Rightarrow> Some (fecha_local r - p))
     # groupby_diff (prev(d_channel_id r \<mapsto> fecha_local r)) rs"

text \<open>
  \<^verbatim>\<open>.dt.total_seconds().div(60)\<close>: minutes, NaN where the difference is NaT. The quotient
  is kept exact: on the whole seconds of a day, rounding it to a double does not change
  its comparison with a whole number of minutes.
\<close>

definition total_minutes :: "int option \<Rightarrow> rat option" where
  "total_minutes d = (case d of None \<Rightarrow> None | Some s \<Rightarrow> Some (of_int s / 60))"

text \<open>
  \<^verbatim>\<open>.gt(inactivity_minutes)\<close>: an elementwise comparison of floats. Its result is a
  Series of dtype bool with no missing entry: a comparison with NaN is \<^verbatim>\<open>False\<close>.
\<close>

definition gt :: "rat option \<Rightarrow> int \<Rightarrow> bool option" where
  "gt x n = (case x of None \<Rightarrow> Some False | Some v \<Rightarrow> Some (of_int n < v))"

definition fillna :: "'a \<Rightarrow> 'a option \<Rightarrow> 'a" where
  "fillna v x = (case x of None \<Rightarrow> v | Some y \<Rightarrow> y)"

text \<open>
  \<^verbatim>\<open>df["session_break"]\<close>. The script \<^verbatim>\<open>exportar_whatsapp_odoo.py\<close> computes its sessions
  with the same chain of calls, and says of the last one that the first message of every
  channel starts a session.
\<close>

definition session_break :: "int \<Rightarrow> drow list \<Rightarrow> bool list" where
  "session_break inactivity_minutes df =
     map (\<lambda>d. fillna True (gt (total_minutes d) inactivity_minutes))
       (groupby_diff Map.empty df)"

text \<open>
  \<^verbatim>\<open>df.groupby("channel_id")["session_break"].cumsum().astype(int)\<close>: the running count of
  \<^verbatim>\<open>True\<close> within each group. \<open>acc\<close> holds the count reached in every channel.
\<close>

fun groupby_cumsum :: "(int \<Rightarrow> int) \<Rightarrow> (int \<times> bool) list \<Rightarrow> int list" where
  "groupby_cumsum acc [] = []"
| "groupby_cumsum acc ((k, b) # xs) =
     (let n = acc k + (if b then 1 else 0)
      in n # groupby_cumsum (acc(k := n)) xs)"

definition session_id :: "int \<Rightarrow> drow list \<Rightarrow> int list" where
  "session_id inactivity_minutes df =
     groupby_cumsum (\<lambda>_. 0) (zip (map d_channel_id df) (session_break inactivity_minutes df))"

text \<open>\<^verbatim>\<open>df\<close> with its column \<^verbatim>\<open>session_id\<close>: every row paired with its session.\<close>

definition with_sessions :: "int \<Rightarrow> drow list \<Rightarrow> (drow \<times> int) list" where
  "with_sessions inactivity_minutes df = zip df (session_id inactivity_minutes df)"

text \<open>
  The rows of a group in \<^verbatim>\<open>grp = df.groupby(["canal","channel_id","session_id"])\<close>.
\<close>

definition session_key :: "drow \<times> int \<Rightarrow> string \<times> int \<times> int" where
  "session_key x = (d_canal (fst x), d_channel_id (fst x), snd x)"

definition group_rows :: "(drow \<times> int) list \<Rightarrow> string \<times> int \<times> int \<Rightarrow> drow list" where
  "group_rows sdf k = map fst (filter (\<lambda>x. session_key x = k) sdf)"

text \<open>One row of \<^verbatim>\<open>sessions\<close>; the fields carry the prefix \<open>s_\<close>.\<close>

record session =
  s_canal :: string
  s_channel_id :: int
  s_session_id :: int
  s_inicio :: timestamp
  s_fin :: timestamp
  s_dur_min :: rat
  s_msgs_total :: nat
  s_msgs_oper :: nat
  s_msgs_user :: nat

text \<open>\<^verbatim>\<open>grp.agg(...)\<close> on one group; pandas has no row for an empty group.\<close>

definition agg :: "string \<times> int \<times> int \<Rightarrow> drow list \<Rightarrow> session list" where
  "agg k g =
     (case g of
        [] \<Rightarrow> []
      | r # rs \<Rightarrow>
          (let lo = fold min (map fecha_local rs) (fecha_local r);
               hi = fold max (map fecha_local rs) (fecha_local r)
           in [\<lparr> s_canal = fst k, s_channel_id = fst (snd k), s_session_id = snd (snd k),
                  s_inicio = lo, s_fin = hi,
                  s_dur_min = fl (of_int (hi - lo) / 60),
                  s_msgs_total = length g,
                  s_msgs_oper = length (filter d_es_operador g),
                  s_msgs_user = length (filter (\<lambda>r. \<not> d_es_operador r) g) \<rparr>]))"

text \<open>The groups come out in the order of their keys (\<^verbatim>\<open>groupby\<close> sorts them).\<close>

definition sessions_all :: "(drow \<times> int) list \<Rightarrow> session list" where
  "sessions_all sdf =
     concat (map (\<lambda>k. agg k (group_rows sdf k)) (sort (remdups (map session_key sdf))))"

text \<open>\<^verbatim>\<open>sessions[(sessions["msgs_user"] > 0) & (sessions["msgs_oper"] > 0)]\<close>\<close>

definition sessions_of :: "(drow \<times> int) list \<Rightarrow> session list" where
  "sessions_of sdf = filter (\<lambda>s. 0 < s_msgs_user s \<and> 0 < s_msgs_oper s) (sessions_all sdf)"

text \<open>
  \<^verbatim>\<open>sessions["inicio"].dt.tz_convert(TZ_STR).dt.date\<close>: the local day of the start, as a
  day number.
\<close>

definition local_date :: "zone \<Rightarrow> timestamp \<Rightarrow> int" where
  "local_date tz t = (t + tz t) div 86400"

definition date_local :: "zone \<Rightarrow> session \<Rightarrow> int" where
  "date_local tz s = local_date tz (s_inicio s)"

text \<open>
  \<^verbatim>\<open>ops_per_sess\<close>: the operator rows of \<^verbatim>\<open>df\<close> grouped by channel, session, partner
  and author name, with the number of messages of each group. \<^verbatim>\<open>groupby\<close> drops a row
  whose key is missing. The fields carry the prefix \<open>p_\<close>.
\<close>

record op_sess =
  p_channel_id :: int
  p_session_id :: int
  p_autor_partner_id :: int
  p_autor :: string
  p_msgs_oper :: nat

fun op_keys :: "(drow \<times> int) list \<Rightarrow> (int \<times> int \<times> int \<times> string) list" where
  "op_keys [] = []"
| "op_keys ((r, sid) # xs) =
     (if d_es_operador r then
        (case d_autor_partner_id r of
           None \<Rightarrow> op_keys xs
         | Some p \<Rightarrow> (d_channel_id r, sid, p, d_autor r) # op_keys xs)
      else op_keys xs)"

definition ops_per_sess_of :: "(drow \<times> int) list \<Rightarrow> op_sess list" where
  "ops_per_sess_of sdf =
     (let ks = op_keys sdf
      in map (\<lambda>k. \<lparr> p_channel_id = fst k, p_session_id = fst (snd k),
                    p_autor_partner_id = fst (snd (snd k)), p_autor = snd (snd (snd k)),
                    p_msgs_oper = length (filter (\<lambda>k'. k' = k) ks) \<rparr>)
           (sort (remdups ks)))"

text \<open>
  \<^verbatim>\<open>ch_map\<close> from \<^verbatim>\<open>channels\<close>, the WhatsApp channels as pairs of id and name; in a dict
  the last pair of an id wins.
\<close>

definition ch_map_of :: "(int \<times> string) list \<Rightarrow> (int \<rightharpoonup> string)" where
  "ch_map_of channels = map_of (rev channels)"

text \<open>
  \<^verbatim>\<open>build_sessions_from_messages\<close> from the channels and the messages that \<^verbatim>\<open>read\<close>
  returned for \<^verbatim>\<open>msg_ids\<close>. Without a WhatsApp channel, and without a message id after
  the three searches, it returns two empty tables. When messages were found and none
  belongs to a channel of \<^verbatim>\<open>ch_map\<close>, \<^verbatim>\<open>pd.DataFrame(rows)\<close> has no column and
  \<^verbatim>\<open>dropna(subset=["fecha_utc"])\<close> raises \<^verbatim>\<open>KeyError\<close>. When every date is NaT the tables
  are empty.
\<close>

definition build_sessions_from_messages ::
  "(int \<times> string) list \<Rightarrow> int set \<Rightarrow> message list \<Rightarrow> int
   \<Rightarrow> error + session list \<times> op_sess list" where
  "build_sessions_from_messages channels internal_partner_ids msgs inactivity_minutes =
     (if channels = [] then Inr ([], [])
      else if msgs = [] then Inr ([], [])
      else (let ch_map = ch_map_of channels
            in if make_rows ch_map internal_partner_ids msgs = [] then Inl KeyError
               else (let df = ingest ch_map internal_partner_ids msgs;
                         sdf = with_sessions inactivity_minutes df
                     in Inr (sessions_of sdf, ops_per_sess_of sdf))))"

section \<open>Attribution\<close>

text \<open>
  \<^verbatim>\<open>ops = ops_per_sess.merge(sessions[avail_cols], on=["channel_id","session_id"],
  how="left")\<close>, followed by the two repairs of main: \<^verbatim>\<open>dur_min\<close> missing becomes
  \<open>0\<close>, \<^verbatim>\<open>date_local\<close> missing becomes the requested day. A left merge keeps every row of
  \<^verbatim>\<open>ops_per_sess\<close>, also one whose session is not in \<^verbatim>\<open>sessions\<close>.
\<close>

record ops_row =
  o_channel_id :: int
  o_session_id :: int
  o_autor_partner_id :: int
  o_autor :: string
  o_msgs_oper :: nat
  o_canal :: "string option"
  o_inicio :: "timestamp option"
  o_fin :: "timestamp option"
  o_dur_min :: rat
  o_date_local :: int

definition joined :: "zone \<Rightarrow> int \<Rightarrow> op_sess \<Rightarrow> session option \<Rightarrow> ops_row" where
  "joined tz default_date p m =
     \<lparr> o_channel_id = p_channel_id p, o_session_id = p_session_id p,
       o_autor_partner_id = p_autor_partner_id p, o_autor = p_autor p,
       o_msgs_oper = p_msgs_oper p,
       o_canal = map_option s_canal m,
       o_inicio = map_option s_inicio m,
       o_fin = map_option s_fin m,
       o_dur_min = fillna 0 (map_option s_dur_min m),
       o_date_local = fillna default_date (map_option (date_local tz) m) \<rparr>"

definition merge_left ::
  "zone \<Rightarrow> int \<Rightarrow> op_sess list \<Rightarrow> session list \<Rightarrow> ops_row list" where
  "merge_left tz default_date ops_per_sess sessions =
     concat (map (\<lambda>p.
       (case filter (\<lambda>s. s_channel_id s = p_channel_id p \<and> s_session_id s = p_session_id p)
               sessions of
          [] \<Rightarrow> [joined tz default_date p None]
        | ms \<Rightarrow> map (\<lambda>s. joined tz default_date p (Some s)) ms)) ops_per_sess)"

text \<open>The rows of the group of \<open>r\<close> in \<^verbatim>\<open>ops.groupby(["channel_id","session_id"])\<close>.\<close>

definition session_rows :: "ops_row list \<Rightarrow> ops_row \<Rightarrow> ops_row list" where
  "session_rows ops r =
     filter (\<lambda>q. o_channel_id q = o_channel_id r \<and> o_session_id q = o_session_id r) ops"

text \<open>\<^verbatim>\<open>.replace(0, 1)\<close>\<close>

definition replace_0_1 :: "rat \<Rightarrow> rat" where
  "replace_0_1 x = (if x = 0 then 1 else x)"

text \<open>
  The column \<^verbatim>\<open>weight\<close> at the row \<open>r\<close> of \<^verbatim>\<open>ops\<close>, for \<^verbatim>\<open>mode = args.modo\<close>, as the
  exact quotient; the float in the column is \<open>fl\<close> of it.
\<close>

definition weight :: "string \<Rightarrow> ops_row list \<Rightarrow> ops_row \<Rightarrow> rat" where
  "weight mode ops r =
     (if mode = ''by_msgs'' then
        of_nat (o_msgs_oper r)
          / replace_0_1 (of_nat (sum_list (map o_msgs_oper (session_rows ops r))))
      else if mode = ''full'' then 1
      else 1 / replace_0_1
             (of_nat (length (remdups (map o_autor_partner_id (session_rows ops r))))))"

text \<open>\<^verbatim>\<open>ops["dur_min"] * ops["weight"]\<close> and \<^verbatim>\<open>ops["min_asignados"] / 60.0\<close>, as floats.\<close>

definition min_asignados :: "string \<Rightarrow> ops_row list \<Rightarrow> ops_row \<Rightarrow> rat" where
  "min_asignados mode ops r = fl (o_dur_min r * fl (weight mode ops r))"

definition horas_asignadas :: "string \<Rightarrow> ops_row list \<Rightarrow> ops_row \<Rightarrow> rat" where
  "horas_asignadas mode ops r = fl (min_asignados mode ops r / 60)"

section \<open>Formatting\<close>

text \<open>\<^verbatim>\<open>f"{int(x)}"\<close>: the decimal digits of an integer, with a minus sign below zero.\<close>

definition digit_char :: "nat \<Rightarrow> char" where
  "digit_char n = char_of (48 + n)"

function show_nat :: "nat \<Rightarrow> string" where
  "show_nat n = (if n < 10 then [digit_char n] else show_nat (n div 10) @ [digit_char (n mod 10)])"
  by pat_completeness auto
termination
  by (relation "measure (\<lambda>n. n)") auto

declare show_nat.simps [simp del]

definition show_int :: "int \<Rightarrow> string" where
  "show_int i = (if i < 0 then CHR ''-'' # show_nat (nat (- i)) else show_nat (nat i))"

text \<open>
  \<^verbatim>\<open>float(round(x, 2))\<close> on a Python float (a row of \<^verbatim>\<open>iterrows\<close> holds Python floats):
  the exact value of \<open>x\<close> rounded to two decimals, a half to the even one, then the double
  nearest to that decimal.
\<close>

definition round2 :: "rat \<Rightarrow> rat" where
  "round2 x = fl (of_int (py_round (x * 100)) / 100)"

text \<open>\<^verbatim>\<open>_fmt_hhmm\<close>: the local time of day as \<^verbatim>\<open>%H:%M\<close>, \<open>None\<close> for a missing instant.\<close>

definition pad2 :: "int \<Rightarrow> string" where
  "pad2 n = (if n < 10 then CHR ''0'' # show_int n else show_int n)"

definition fmt_hhmm :: "zone \<Rightarrow> timestamp option \<Rightarrow> string option" where
  "fmt_hhmm tz x =
     (case x of
        None \<Rightarrow> None
      | Some t \<Rightarrow>
          (let l = (t + tz t) mod 86400
           in Some (pad2 (l div 3600) @ '':'' @ pad2 (l mod 3600 div 60))))"

definition time_span :: "zone \<Rightarrow> ops_row \<Rightarrow> string" where
  "time_span tz r =
     (case (fmt_hhmm tz (o_inicio r), fmt_hhmm tz (o_fin r)) of
        (Some start_h, Some end_h) \<Rightarrow> start_h @ ''-'' @ end_h
      | _ \<Rightarrow> show_int (py_round (o_dur_min r)) @ ''m'')"

text \<open>
  The f-string of \<^verbatim>\<open>signature\<close>: the letters WA, then in square brackets
  \<^verbatim>\<open>int(r['channel_id'])\<close>, a slash and \<^verbatim>\<open>int(r['session_id'])\<close>, then an at sign
  and \<^verbatim>\<open>partner_id\<close>.
\<close>

definition signature :: "ops_row \<Rightarrow> string" where
  "signature r =
     ''WA['' @ show_int (o_channel_id r) @ ''/'' @ show_int (o_session_id r) @ '']@''
       @ show_int (o_autor_partner_id r)"

text \<open>
  \<^verbatim>\<open>name = f"WhatsApp {r['canal']} ({time_span}) - {r['autor']} [{signature}]"\<close>; a
  missing \<^verbatim>\<open>canal\<close> is NaN and prints as \<^verbatim>\<open>nan\<close>.
\<close>

definition line_name :: "zone \<Rightarrow> ops_row \<Rightarrow> string" where
  "line_name tz r =
     ''WhatsApp '' @ (case o_canal r of None \<Rightarrow> ''nan'' | Some c \<Rightarrow> c)
       @ '' ('' @ time_span tz r @ '') - '' @ o_autor r @ '' ['' @ signature r @ '']''"

section \<open>The ledger: account.analytic.line on the Odoo server\<close>

text \<open>
  \<^verbatim>\<open>line_vals\<close>. A date is a day number; \<^verbatim>\<open>tag_ids\<close> and the table of analytic tags are
  another table of the server, which no search of the ledger reads, and are left out.
\<close>

record line_vals =
  name :: string
  date :: int
  unit_amount :: rat
  project_id :: int
  employee_id :: int

text \<open>
  The table: its records with their ids, and the id the next \<^verbatim>\<open>create\<close> gives out.
\<close>

record ledger =
  lines :: "(int \<times> line_vals) list"
  next_id :: int

text \<open>The search domain \<^verbatim>\<open>dom\<close> of \<^verbatim>\<open>create_timesheet_if_needed\<close>.\<close>

record aal_domain =
  dom_name :: string
  dom_date :: int
  dom_project_id :: int
  dom_employee_id :: int

text \<open>
  Odoo's \<^verbatim>\<open>ilike\<close> is PostgreSQL's \<^verbatim>\<open>ILIKE\<close> on \<^verbatim>\<open>%value%\<close>: the value occurs in the field,
  letter case ignored. The markers of this program hold no \<^verbatim>\<open>%\<close>, \<^verbatim>\<open>_\<close> or backslash, the
  characters \<^verbatim>\<open>ILIKE\<close> reads as wildcards.
\<close>

definition lower :: "char \<Rightarrow> char" where
  "lower c = (if CHR ''A'' \<le> c \<and> c \<le> CHR ''Z'' then char_of (of_char c + (32::nat)) else c)"

fun contains :: "string \<Rightarrow> string \<Rightarrow> bool" where
  "contains [] m = (m = [])"
| "contains (c # cs) m = (take (length m) (c # cs) = m \<or> contains cs m)"

definition ilike :: "string \<Rightarrow> string \<Rightarrow> bool" where
  "ilike field v = contains (map lower field) (map lower v)"

definition matches :: "aal_domain \<Rightarrow> int \<times> line_vals \<Rightarrow> bool" where
  "matches d l =
     (ilike (name (snd l)) (dom_name d) \<and> date (snd l) = dom_date d
      \<and> project_id (snd l) = dom_project_id d \<and> employee_id (snd l) = dom_employee_id d)"

text \<open>
  Every \<^verbatim>\<open>models.execute_kw\<close> is a remote call that may raise (\<open>Fault\<close>). \<open>rpc\<close> says
  which calls of a run raise; a call that raises changes nothing on the server.
\<close>

record rpc =
  search_fault :: "aal_domain \<Rightarrow> bool"
  unlink_fault :: "int list \<Rightarrow> bool"
  create_fault :: "line_vals \<Rightarrow> bool"

text \<open>\<^verbatim>\<open>search(..., "account.analytic.line", dom, limit=...)\<close>, in the order \<^verbatim>\<open>id asc\<close>.\<close>

definition search :: "rpc \<Rightarrow> ledger \<Rightarrow> aal_domain \<Rightarrow> nat option \<Rightarrow> error + int list" where
  "search srv L d limit =
     (if search_fault srv d then Inl Fault
      else (let ids = sort (map fst (filter (matches d) (lines L)))
            in Inr (case limit of None \<Rightarrow> ids | Some n \<Rightarrow> take n ids)))"

text \<open>\<^verbatim>\<open>execute_kw(..., "account.analytic.line", "unlink", [ids])\<close>\<close>

definition unlink :: "rpc \<Rightarrow> ledger \<Rightarrow> int list \<Rightarrow> error + ledger" where
  "unlink srv L ids =
     (if unlink_fault srv ids then Inl Fault
      else Inr (L\<lparr>lines := filter (\<lambda>l. fst l \<notin> set ids) (lines L)\<rparr>))"

text \<open>\<^verbatim>\<open>execute_kw(..., "account.analytic.line", "create", [line_vals])\<close>\<close>

definition create :: "rpc \<Rightarrow> ledger \<Rightarrow> line_vals \<Rightarrow> error + int \<times> ledger" where
  "create srv L vals =
     (if create_fault srv vals then Inl Fault
      else Inr (next_id L, \<lparr>lines = lines L @ [(next_id L, vals)], next_id = next_id L + 1\<rparr>))"

section \<open>Idempotent upsert\<close>

text \<open>
  The result is what the call returns or the exception it lets through, with the ledger as
  the call leaves it.
\<close>

definition create_timesheet_if_needed ::
  "rpc \<Rightarrow> ledger \<Rightarrow> line_vals \<Rightarrow> string \<Rightarrow> bool \<Rightarrow> (error + int \<times> bool) \<times> ledger" where
  "create_timesheet_if_needed srv L vals sig recreate =
     (let name_marker = ''['' @ sig @ '']'';
          d = \<lparr> dom_name = name_marker, dom_date = date vals,
                  dom_project_id = project_id vals, dom_employee_id = employee_id vals \<rparr>;
          add = (\<lambda>L1. case create srv L1 vals of
                         Inl e \<Rightarrow> (Inl e, L1)
                       | Inr (new_id, L2) \<Rightarrow> (Inr (new_id, True), L2))
      in case search srv L d (Some 1) of
           Inl e \<Rightarrow> (Inl e, L)
         | Inr [] \<Rightarrow> add L
         | Inr (e0 # es) \<Rightarrow>
             (if recreate then
                (case unlink srv L (e0 # es) of
                   Inl e \<Rightarrow> (Inl e, L)
                 | Inr L1 \<Rightarrow> add L1)
              else (Inr (e0, False), L)))"

section \<open>The main loop\<close>

record args =
  fecha :: int
  inactividad :: int
  modo :: string
  dry_run :: bool
  recrear :: bool

text \<open>What the loop of main accumulates.\<close>

record summary =
  creados :: nat
  ya_existian :: nat
  omitidos_sin_empleado :: "string \<rightharpoonup> nat"
  preview_rows :: "(string \<times> line_vals) list"

definition summary0 :: summary where
  "summary0 = \<lparr> creados = 0, ya_existian = 0, omitidos_sin_empleado = Map.empty,
               preview_rows = [] \<rparr>"

text \<open>
  The maps of \<^verbatim>\<open>build_employee_map\<close>: partner to (user id, name), user to (employee id,
  name). \<^verbatim>\<open>if not employee_id\<close> also rejects the id \<open>0\<close>.
\<close>

definition employee_of ::
  "(int \<rightharpoonup> int \<times> string) \<Rightarrow> (int \<rightharpoonup> int \<times> string) \<Rightarrow> int \<Rightarrow> int option" where
  "employee_of partner_to_user user_to_employee partner_id =
     (case partner_to_user partner_id of
        None \<Rightarrow> None
      | Some user_info \<Rightarrow>
          (case user_to_employee (fst user_info) of
             None \<Rightarrow> None
           | Some emp \<Rightarrow> if fst emp = 0 then None else Some (fst emp)))"

definition make_line_vals ::
  "zone \<Rightarrow> string \<Rightarrow> ops_row list \<Rightarrow> int \<Rightarrow> int \<Rightarrow> ops_row \<Rightarrow> line_vals" where
  "make_line_vals tz mode ops proj emp r =
     \<lparr> name = line_name tz r, date = o_date_local r,
       unit_amount = round2 (horas_asignadas mode ops r),
       project_id = proj, employee_id = emp \<rparr>"

text \<open>
  The body of \<^verbatim>\<open>for _, r in ops.iterrows()\<close> runs once for each row of \<open>rs\<close>; \<open>ops\<close> is the
  whole table, which the weights read. Every row has a partner (\<^verbatim>\<open>groupby\<close> dropped the
  missing keys), so the test \<^verbatim>\<open>partner_id is None\<close> never fires. No \<^verbatim>\<open>try\<close> surrounds the
  call of \<^verbatim>\<open>create_timesheet_if_needed\<close>: an exception leaves the loop and main. Of a
  preview row the signature and the values of the line are kept.
\<close>

fun process_rows ::
  "zone \<Rightarrow> args \<Rightarrow> rpc \<Rightarrow> (int \<rightharpoonup> int \<times> string) \<Rightarrow> (int \<rightharpoonup> int \<times> string) \<Rightarrow> int
   \<Rightarrow> ops_row list \<Rightarrow> ops_row list \<Rightarrow> summary \<Rightarrow> ledger
   \<Rightarrow> (error + summary) \<times> ledger" where
  "process_rows tz a srv p2u u2e proj ops [] st L = (Inr st, L)"
| "process_rows tz a srv p2u u2e proj ops (r # rs) st L =
     (case employee_of p2u u2e (o_autor_partner_id r) of
        None \<Rightarrow>
          process_rows tz a srv p2u u2e proj ops rs
            (st\<lparr>omitidos_sin_empleado :=
                 (omitidos_sin_empleado st)(o_autor r \<mapsto>
                    (case omitidos_sin_empleado st (o_autor r) of None \<Rightarrow> 0 | Some n \<Rightarrow> n) + 1)\<rparr>)
            L
      | Some emp \<Rightarrow>
          (let vals = make_line_vals tz (modo a) ops proj emp r;
               st1 = st\<lparr>preview_rows := preview_rows st @ [(signature r, vals)]\<rparr>
           in if dry_run a then process_rows tz a srv p2u u2e proj ops rs st1 L
              else
                (case create_timesheet_if_needed srv L vals (signature r) (recrear a) of
                   (Inl e, L1) \<Rightarrow> (Inl e, L1)
                 | (Inr (_, created), L1) \<Rightarrow>
                     process_rows tz a srv p2u u2e proj ops rs
                       (if created then st1\<lparr>creados := creados st1 + 1\<rparr>
                        else st1\<lparr>ya_existian := ya_existian st1 + 1\<rparr>)
                       L1)))"

text \<open>
  main after the project is found: the sessions of the day, the early return on an empty
  table, the merge, the loop. \<open>proj\<close> is the id of the project, \<open>channels\<close> and \<open>msgs\<close>
  are what the server returned.
\<close>

definition main ::
  "zone \<Rightarrow> args \<Rightarrow> rpc \<Rightarrow> (int \<times> string) list \<Rightarrow> int set \<Rightarrow> (int \<rightharpoonup> int \<times> string)
   \<Rightarrow> (int \<rightharpoonup> int \<times> string) \<Rightarrow> int \<Rightarrow> message list \<Rightarrow> ledger
   \<Rightarrow> (error + summary) \<times> ledger" where
  "main tz a srv channels internal_partner_ids p2u u2e proj msgs L =
     (case build_sessions_from_messages channels internal_partner_ids msgs (inactividad a) of
        Inl e \<Rightarrow> (Inl e, L)
      | Inr (sessions, ops_per_sess) \<Rightarrow>
          if sessions = [] \<or> ops_per_sess = [] then (Inr summary0, L)
          else (let ops = merge_left tz (fecha a) ops_per_sess sessions
                in process_rows tz a srv p2u u2e proj ops ops summary0 L))"

section \<open>Vocabulary of the statements\<close>

text \<open>A server none of whose calls raises.\<close>

definition no_fault :: rpc where
  "no_fault = \<lparr> search_fault = (\<lambda>_. False), unlink_fault = (\<lambda>_. False),
                create_fault = (\<lambda>_. False) \<rparr>"

text \<open>
  The records of the ledger whose name holds the marker of \<open>sig\<close> and whose date, project
  and employee are those of \<open>vals\<close>.
\<close>

definition hits :: "ledger \<Rightarrow> line_vals \<Rightarrow> string \<Rightarrow> (int \<times> line_vals) list" where
  "hits L vals sig =
     filter (matches \<lparr> dom_name = ''['' @ sig @ '']'', dom_date = date vals,
                       dom_project_id = project_id vals, dom_employee_id = employee_id vals \<rparr>)
       (lines L)"

text \<open>The number of rows that reach the upsert: those whose partner has an employee.\<close>

definition upserted ::
  "(int \<rightharpoonup> int \<times> string) \<Rightarrow> (int \<rightharpoonup> int \<times> string) \<Rightarrow> ops_row list \<Rightarrow> nat" where
  "upserted p2u u2e rs =
     length (filter (\<lambda>r. employee_of p2u u2e (o_autor_partner_id r) \<noteq> None) rs)"

text \<open>The key of a row of \<^verbatim>\<open>sessions\<close> in the grouping that made it.\<close>

definition key_of :: "session \<Rightarrow> string \<times> int \<times> int" where
  "key_of s = (s_canal s, s_channel_id s, s_session_id s)"


text \<open>
  The integer that a decimal numeral denotes, as Python's \<^verbatim>\<open>int\<close> reads it, and the strings
  that are decimal numerals: digits, after a minus sign or not.
\<close>

definition digit_val :: "char \<Rightarrow> nat" where
  "digit_val c = of_char c - 48"

definition read_nat :: "string \<Rightarrow> nat" where
  "read_nat s = foldl (\<lambda>n c. 10 * n + digit_val c) 0 s"

definition read_int :: "string \<Rightarrow> int" where
  "read_int s = (if s \<noteq> [] \<and> hd s = CHR ''-'' then - int (read_nat (tl s)) else int (read_nat s))"

definition decimal :: "string \<Rightarrow> bool" where
  "decimal s =
     (let ds = (if s \<noteq> [] \<and> hd s = CHR ''-'' then tl s else s)
      in ds \<noteq> [] \<and> (\<forall>c\<in>set ds. CHR ''0'' \<le> c \<and> c \<le> CHR ''9''))"

section \<open>A day of messages\<close>

text \<open>
  Two channels. In Acme a customer writes at 00:00:00 UTC and the operator Ana answers ten
  minutes later; in Beta the operator Beto writes once and nobody else does.
\<close>

definition ex_channels :: "(int \<times> string) list" where
  "ex_channels = [(1, ''Acme''), (2, ''Beta'')]"

definition ex_ch_map :: "int \<rightharpoonup> string" where
  "ex_ch_map = [1 \<mapsto> ''Acme'', 2 \<mapsto> ''Beta'']"

text \<open>The zone three hours behind UTC, as Buenos Aires has been since 2009.\<close>

definition ex_tz :: zone where
  "ex_tz = (\<lambda>_. - 10800)"

definition ex_internal :: "int set" where
  "ex_internal = {10, 11}"

definition ex_msgs :: "message list" where
  "ex_msgs =
     [\<lparr>m_id = 1, m_date = Some 0, m_author_id = Some (50, ''Cust''), m_res_id = 1\<rparr>,
      \<lparr>m_id = 2, m_date = Some 600, m_author_id = Some (10, ''Ana''), m_res_id = 1\<rparr>,
      \<lparr>m_id = 3, m_date = Some 100, m_author_id = Some (11, ''Beto''), m_res_id = 2\<rparr>]"

definition ex_p2u :: "int \<rightharpoonup> int \<times> string" where
  "ex_p2u = [10 \<mapsto> (100, ''Ana''), 11 \<mapsto> (101, ''Beto'')]"

definition ex_u2e :: "int \<rightharpoonup> int \<times> string" where
  "ex_u2e = [100 \<mapsto> (7, ''Ana''), 101 \<mapsto> (8, ''Beto'')]"

definition ex_args :: args where
  "ex_args = \<lparr>fecha = 20000, inactividad = 45, modo = ''equal'', dry_run = False, recrear = False\<rparr>"

definition ex_ledger0 :: ledger where
  "ex_ledger0 = \<lparr>lines = [], next_id = 1\<rparr>"

definition ex_ledger1 :: ledger where
  "ex_ledger1 =
     \<lparr>lines =
        [(1, \<lparr>name = ''WhatsApp Acme (21:00-21:10) - Ana [WA[1/0]@10]'', date = - 1,
               unit_amount = fl (17 / 100), project_id = 3, employee_id = 7\<rparr>),
         (2, \<lparr>name = ''WhatsApp nan (0m) - Beto [WA[2/0]@11]'', date = 20000,
               unit_amount = 0, project_id = 3, employee_id = 8\<rparr>)],
      next_id = 3\<rparr>"

text \<open>A ledger with two records of the same signature, date, project and employee.\<close>

definition ex_ledger_dup :: ledger where
  "ex_ledger_dup =
     \<lparr>lines =
        [(4, \<lparr>name = ''WhatsApp Acme (21:00-21:10) - Ana [WA[1/0]@10]'', date = - 1,
               unit_amount = 17 / 100, project_id = 3, employee_id = 7\<rparr>),
         (6, \<lparr>name = ''copia [wa[1/0]@10]'', date = - 1,
               unit_amount = 1, project_id = 3, employee_id = 7\<rparr>)],
      next_id = 9\<rparr>"

definition ex_vals :: line_vals where
  "ex_vals = \<lparr>name = ''WhatsApp Acme (21:00-21:10) - Ana [WA[1/0]@10]'', date = - 1,
              unit_amount = 17 / 100, project_id = 3, employee_id = 7\<rparr>"

text \<open>Three messages of one channel: gaps of exactly 45 minutes and of 45 minutes and one
  second.\<close>

definition ex_gaps :: "message list" where
  "ex_gaps =
     [\<lparr>m_id = 1, m_date = Some 0, m_author_id = Some (50, ''Cust''), m_res_id = 1\<rparr>,
      \<lparr>m_id = 2, m_date = Some 2700, m_author_id = Some (10, ''Ana''), m_res_id = 1\<rparr>,
      \<lparr>m_id = 3, m_date = Some 5401, m_author_id = Some (50, ''Cust''), m_res_id = 1\<rparr>]"

text \<open>A server on which creating a record of employee 7 raises.\<close>

definition ex_srv_ana_fails :: rpc where
  "ex_srv_ana_fails = \<lparr> search_fault = (\<lambda>_. False), unlink_fault = (\<lambda>_. False),
                        create_fault = (\<lambda>v. employee_id v = 7) \<rparr>"

text \<open>The table \<^verbatim>\<open>ops\<close> of the day above.\<close>

definition ex_ops :: "ops_row list" where
  "ex_ops =
     [\<lparr>o_channel_id = 1, o_session_id = 0, o_autor_partner_id = 10, o_autor = ''Ana'',
       o_msgs_oper = 1, o_canal = Some ''Acme'', o_inicio = Some 0, o_fin = Some 600,
       o_dur_min = 10, o_date_local = - 1\<rparr>,
      \<lparr>o_channel_id = 2, o_session_id = 0, o_autor_partner_id = 11, o_autor = ''Beto'',
       o_msgs_oper = 1, o_canal = None, o_inicio = None, o_fin = None,
       o_dur_min = 0, o_date_local = 20000\<rparr>]"

text \<open>The session of Acme and the two operator rows of the day above.\<close>

definition ex_session :: session where
  "ex_session =
     \<lparr>s_canal = ''Acme'', s_channel_id = 1, s_session_id = 0, s_inicio = 0, s_fin = 600,
       s_dur_min = 10, s_msgs_total = 2, s_msgs_oper = 1, s_msgs_user = 1\<rparr>"

definition ex_ana :: op_sess where
  "ex_ana =
     \<lparr>p_channel_id = 1, p_session_id = 0, p_autor_partner_id = 10, p_autor = ''Ana'',
       p_msgs_oper = 1\<rparr>"

definition ex_beto :: op_sess where
  "ex_beto =
     \<lparr>p_channel_id = 2, p_session_id = 0, p_autor_partner_id = 11, p_autor = ''Beto'',
       p_msgs_oper = 1\<rparr>"

text \<open>An operator and a message without author, one minute apart in one channel.\<close>

definition ex_authorless :: "message list" where
  "ex_authorless =
     [\<lparr>m_id = 1, m_date = Some 0, m_author_id = Some (10, ''Ana''), m_res_id = 1\<rparr>,
      \<lparr>m_id = 2, m_date = Some 60, m_author_id = None, m_res_id = 1\<rparr>]"



section \<open>Ingestion: order within a channel\<close>

text \<open>The two tables that \<^verbatim>\<open>build_sessions_from_messages\<close> returns, early returns included.\<close>

lemma build_tables:
  assumes "build_sessions_from_messages channels ip msgs T = Inr (sessions, ops_per_sess)"
  shows "sessions = sessions_of (with_sessions T (ingest (ch_map_of channels) ip msgs))"
    and "ops_per_sess = ops_per_sess_of (with_sessions T (ingest (ch_map_of channels) ip msgs))"
proof -
  have none: "sessions_of (with_sessions T []) = []" "ops_per_sess_of (with_sessions T []) = []"
    by (simp_all add: with_sessions_def sessions_of_def sessions_all_def ops_per_sess_of_def)
  have e: "make_rows (ch_map_of channels) ip msgs = [] \<Longrightarrow> ingest (ch_map_of channels) ip msgs = []"
    by (simp add: ingest_def sort_values_def)
  have "channels = [] \<Longrightarrow> make_rows (ch_map_of channels) ip msgs = []"
    by (simp add: make_rows_def ch_map_of_def)
  moreover have "msgs = [] \<Longrightarrow> make_rows (ch_map_of channels) ip msgs = []"
    by (simp add: make_rows_def)
  ultimately have "sessions = sessions_of (with_sessions T (ingest (ch_map_of channels) ip msgs))
      \<and> ops_per_sess = ops_per_sess_of (with_sessions T (ingest (ch_map_of channels) ip msgs))"
    using assms e none
    by (auto simp: build_sessions_from_messages_def Let_def split: if_splits)
  then show "sessions = sessions_of (with_sessions T (ingest (ch_map_of channels) ip msgs))"
    and "ops_per_sess = ops_per_sess_of (with_sessions T (ingest (ch_map_of channels) ip msgs))"
    by simp_all
qed

lemma channel_sorted:
  "sorted (map (\<lambda>r. (d_channel_id r, fecha_local r)) xs) \<Longrightarrow>
   sorted (map fecha_local (filter (\<lambda>r. d_channel_id r = c) xs))"
proof (induction xs)
  case Nil
  then show ?case by simp
next
  case (Cons x xs)
  then show ?case by (auto simp: less_eq_prod_def)
qed

text \<open>
  C8. In the table that ingestion hands on, the rows of any channel \<open>c\<close> are in
  non-decreasing order of their instant, and the rows of \<open>c\<close> that share an instant \<open>t\<close>
  stand in the order in which the rows were built from the messages: the sort is stable.
\<close>

theorem ingest_channel_sorted_stable:
  "sorted (map fecha_local (filter (\<lambda>r. d_channel_id r = c) (ingest ch_map ip msgs)))
   \<and> filter (\<lambda>r. d_channel_id r = c \<and> fecha_local r = t) (ingest ch_map ip msgs)
       = filter (\<lambda>r. d_channel_id r = c \<and> fecha_local r = t)
           (dropna (make_rows ch_map ip msgs))"
proof -
  let ?key = "\<lambda>r. (d_channel_id r, fecha_local r)"
  let ?df = "dropna (make_rows ch_map ip msgs)"
  have "sorted (map ?key (sort_key ?key ?df))"
    by (rule sorted_sort_key)
  then have a: "sorted (map fecha_local (filter (\<lambda>r. d_channel_id r = c) (sort_key ?key ?df)))"
    by (rule channel_sorted)
  have "filter (\<lambda>r. ?key r = (c, t)) (sort_key ?key ?df) = filter (\<lambda>r. ?key r = (c, t)) ?df"
    by (rule sort_key_stable)
  then have b: "filter (\<lambda>r. d_channel_id r = c \<and> fecha_local r = t) (sort_key ?key ?df)
      = filter (\<lambda>r. d_channel_id r = c \<and> fecha_local r = t) ?df"
    by simp
  from a b show ?thesis
    by (simp add: ingest_def sort_values_def)
qed

section \<open>Segmentation: the first event of a channel\<close>

text \<open>
  C3. The first row of the table has no previous row in its channel: its difference is
  NaT, the comparison \<^verbatim>\<open>.gt\<close> of the resulting NaN is already \<^verbatim>\<open>False\<close>, and
  \<^verbatim>\<open>.fillna(True)\<close> finds nothing to fill. The first event of a channel is not a break
  and its session is number 0, for every threshold.
\<close>

theorem first_event_session_0:
  "session_break T (r # rs) ! 0 = False \<and> session_id T (r # rs) ! 0 = 0"
  by (simp add: session_break_def session_id_def gt_def fillna_def total_minutes_def)

text \<open>
  C4. On a channel with gaps of 45:00 and 45:01 minutes and the threshold 45, the session
  numbers of the three events are 0, 0 and 1: the counter of a channel starts at 0.
\<close>

theorem session_ordinals_from_0:
  "session_id 45 (ingest ex_ch_map ex_internal ex_gaps) = [0, 0, 1]"
  by code_simp

section \<open>The upsert\<close>

lemma hd_sorted_Min: "sorted ys \<Longrightarrow> ys \<noteq> [] \<Longrightarrow> hd ys = Min (set ys)"
  by (cases ys) (auto intro!: Min_eqI [symmetric])

lemma take1_sort: "take (Suc 0) (sort xs) = (if xs = [] then [] else [Min (set xs)])"
proof (cases "xs = []")
  case True
  then show ?thesis by simp
next
  case False
  then have ne: "sort xs \<noteq> []" by (metis length_sort length_0_conv)
  then have "take (Suc 0) (sort xs) = [hd (sort xs)]"
    by (cases "sort xs") auto
  also have "hd (sort xs) = Min (set xs)"
    using hd_sorted_Min [of "sort xs"] ne by simp
  finally show ?thesis using False by simp
qed

lemma search_limit1:
  "search no_fault L d (Some 1) =
     Inr (if filter (matches d) (lines L) = [] then []
          else [Min (fst ` set (filter (matches d) (lines L)))])"
  by (simp add: search_def take1_sort Let_def no_fault_def)

lemma unlink_no_fault:
  "unlink no_fault L ids = Inr (L\<lparr>lines := filter (\<lambda>l. fst l \<notin> set ids) (lines L)\<rparr>)"
  by (simp add: unlink_def no_fault_def)

lemma create_no_fault:
  "create no_fault L vals =
     Inr (next_id L, \<lparr>lines = lines L @ [(next_id L, vals)], next_id = next_id L + 1\<rparr>)"
  by (simp add: create_def no_fault_def)

lemma digit_char_val: "n < 10 \<Longrightarrow> digit_val (digit_char n) = n"
  by (simp add: digit_val_def digit_char_def)

lemma digit_char_range: "n < 10 \<Longrightarrow> CHR ''0'' \<le> digit_char n \<and> digit_char n \<le> CHR ''9''"
  by (simp add: digit_char_def less_eq_char_def)

lemma show_nat_digits:
  "show_nat n \<noteq> [] \<and> (\<forall>c\<in>set (show_nat n). CHR ''0'' \<le> c \<and> c \<le> CHR ''9'')"
proof (induction n rule: show_nat.induct)
  case (1 n)
  show ?case
  proof (cases "n < 10")
    case True
    then show ?thesis
      using digit_char_range [of n] by (subst (1 2) show_nat.simps) simp
  next
    case False
    with 1 digit_char_range [of "n mod 10"] show ?thesis
      by (subst (1 2) show_nat.simps) auto
  qed
qed

lemma read_nat_snoc: "read_nat (s @ [c]) = 10 * read_nat s + digit_val c"
  by (simp add: read_nat_def)

lemma read_nat_show_nat: "read_nat (show_nat n) = n"
proof (induction n rule: show_nat.induct)
  case (1 n)
  show ?case
  proof (cases "n < 10")
    case True
    then show ?thesis
      by (subst show_nat.simps) (simp add: read_nat_def digit_char_val)
  next
    case False
    with 1 have "read_nat (show_nat (n div 10)) = n div 10" by simp
    with False show ?thesis
      by (subst show_nat.simps) (simp add: read_nat_snoc digit_char_val)
  qed
qed

lemma show_nat_no_minus: "hd (show_nat n) \<noteq> CHR ''-''"
proof -
  from show_nat_digits [of n] have "show_nat n \<noteq> []" "CHR ''0'' \<le> hd (show_nat n)"
    by (simp_all add: hd_in_set)
  then show ?thesis by (auto simp: less_eq_char_def)
qed

lemma read_int_show_int: "read_int (show_int i) = i"
  using show_nat_no_minus [of "nat i"] show_nat_digits [of "nat i"]
  by (simp add: read_int_def show_int_def read_nat_show_nat)

lemma decimal_show_int: "decimal (show_int i)"
  using show_nat_digits [of "nat i"] show_nat_digits [of "nat (- i)"] show_nat_no_minus [of "nat i"]
  by (simp add: decimal_def show_int_def)

lemma show_int_chars: "c \<in> set (show_int i) \<Longrightarrow> c = CHR ''-'' \<or> (CHR ''0'' \<le> c \<and> c \<le> CHR ''9'')"
  using show_nat_digits [of "nat i"] show_nat_digits [of "nat (- i)"]
  by (auto simp: show_int_def split: if_splits)

lemma show_int_no_sep: "CHR ''/'' \<notin> set (show_int i)" "CHR '']'' \<notin> set (show_int i)"
  using show_int_chars [of "CHR ''/''" i] show_int_chars [of "CHR '']''" i]
  by (auto simp: less_eq_char_def)

lemma split_at_sep:
  "xs @ c # ys = xs' @ c # ys' \<Longrightarrow> c \<notin> set xs \<Longrightarrow> c \<notin> set xs' \<Longrightarrow> xs = xs' \<and> ys = ys'"
proof (induction xs arbitrary: xs')
  case Nil
  then show ?case by (cases xs') auto
next
  case (Cons x xs)
  then show ?case by (cases xs') auto
qed

lemma signature_inj:
  "signature r = signature r' \<longleftrightarrow>
     o_channel_id r = o_channel_id r' \<and> o_session_id r = o_session_id r'
     \<and> o_autor_partner_id r = o_autor_partner_id r'"
proof
  assume e: "signature r = signature r'"
  then have "show_int (o_channel_id r) @ CHR ''/'' # (show_int (o_session_id r) @ '']@''
        @ show_int (o_autor_partner_id r))
      = show_int (o_channel_id r') @ CHR ''/'' # (show_int (o_session_id r') @ '']@''
        @ show_int (o_autor_partner_id r'))"
    by (simp add: signature_def)
  from split_at_sep [OF this show_int_no_sep(1) show_int_no_sep(1)]
  have a: "show_int (o_channel_id r) = show_int (o_channel_id r')"
    and "show_int (o_session_id r) @ CHR '']'' # (''@'' @ show_int (o_autor_partner_id r))
      = show_int (o_session_id r') @ CHR '']'' # (''@'' @ show_int (o_autor_partner_id r'))"
    by simp_all
  from split_at_sep [OF this(2) show_int_no_sep(2) show_int_no_sep(2)]
  have b: "show_int (o_session_id r) = show_int (o_session_id r')"
    and c: "show_int (o_autor_partner_id r) = show_int (o_autor_partner_id r')"
    by simp_all
  from a b c show "o_channel_id r = o_channel_id r' \<and> o_session_id r = o_session_id r'
     \<and> o_autor_partner_id r = o_autor_partner_id r'"
    by (metis read_int_show_int)
next
  assume "o_channel_id r = o_channel_id r' \<and> o_session_id r = o_session_id r'
     \<and> o_autor_partner_id r = o_autor_partner_id r'"
  then show "signature r = signature r'" by (simp add: signature_def)
qed

lemma upsert_effect:
  "create_timesheet_if_needed no_fault L vals sig recreate =
      (if hits L vals sig = [] then
         (Inr (next_id L, True),
          \<lparr>lines = lines L @ [(next_id L, vals)], next_id = next_id L + 1\<rparr>)
       else if recreate then
         (Inr (next_id L, True),
          \<lparr>lines = filter (\<lambda>l. fst l \<noteq> Min (fst ` set (hits L vals sig))) (lines L)
                     @ [(next_id L, vals)],
            next_id = next_id L + 1\<rparr>)
       else (Inr (Min (fst ` set (hits L vals sig)), False), L))"
  unfolding create_timesheet_if_needed_def Let_def search_limit1 unlink_no_fault create_no_fault
    hits_def
  by simp

text \<open>
  C2. For every row \<open>r\<close> that reaches the upsert (its partner has an employee and the run
  is no dry run), on a server whose calls succeed. The signature of \<open>r\<close> is the letters WA,
  then in square brackets the decimal numerals of the channel id and of the session number
  with a slash between them, then an at sign and the decimal numeral of the partner id;
  two rows have the same signature exactly when they agree on the three numbers. The step
  of the loop looks in the ledger for the records whose name holds the signature in square
  brackets, letter case ignored, and whose date, project and employee are those of \<open>r\<close>.
  With none it appends the new record and counts it as created; with some and \<open>recrear\<close>
  it removes the one of least id among them, appends the new record and counts it as
  created; with some and no \<open>recrear\<close> it writes nothing and counts \<open>r\<close> as already
  existing.
\<close>

theorem upsert_of_record:
  assumes "employee_of p2u u2e (o_autor_partner_id r) = Some emp"
    and "\<not> dry_run a"
    and "vals = make_line_vals tz (modo a) ops proj emp r"
    and "found = filter (\<lambda>l. ilike (name (snd l)) (''['' @ signature r @ '']'')
                   \<and> date (snd l) = o_date_local r \<and> project_id (snd l) = proj
                   \<and> employee_id (snd l) = emp) (lines L)"
    and "st1 = st\<lparr>preview_rows := preview_rows st @ [(signature r, vals)]\<rparr>"
  shows "(\<exists>A B C. signature r = ''WA['' @ A @ ''/'' @ B @ '']@'' @ C
            \<and> decimal A \<and> read_int A = o_channel_id r
            \<and> decimal B \<and> read_int B = o_session_id r
            \<and> decimal C \<and> read_int C = o_autor_partner_id r)
    \<and> (signature r = signature r' \<longleftrightarrow>
          o_channel_id r = o_channel_id r' \<and> o_session_id r = o_session_id r'
          \<and> o_autor_partner_id r = o_autor_partner_id r')
    \<and> process_rows tz a no_fault p2u u2e proj ops (r # rs) st L =
        (if found = [] then
           process_rows tz a no_fault p2u u2e proj ops rs (st1\<lparr>creados := creados st1 + 1\<rparr>)
             \<lparr>lines = lines L @ [(next_id L, vals)], next_id = next_id L + 1\<rparr>
         else if recrear a then
           process_rows tz a no_fault p2u u2e proj ops rs (st1\<lparr>creados := creados st1 + 1\<rparr>)
             \<lparr>lines = filter (\<lambda>l. fst l \<noteq> Min (fst ` set found)) (lines L) @ [(next_id L, vals)],
               next_id = next_id L + 1\<rparr>
         else
           process_rows tz a no_fault p2u u2e proj ops rs
             (st1\<lparr>ya_existian := ya_existian st1 + 1\<rparr>) L)"
proof -
  have f: "signature r = ''WA['' @ show_int (o_channel_id r) @ ''/'' @ show_int (o_session_id r)
      @ '']@'' @ show_int (o_autor_partner_id r)"
    by (simp add: signature_def)
  have p1: "\<exists>A B C. signature r = ''WA['' @ A @ ''/'' @ B @ '']@'' @ C
            \<and> decimal A \<and> read_int A = o_channel_id r
            \<and> decimal B \<and> read_int B = o_session_id r
            \<and> decimal C \<and> read_int C = o_autor_partner_id r"
    using f decimal_show_int read_int_show_int by blast
  have h: "hits L vals (signature r) = found"
    unfolding hits_def assms(3,4)
    by (intro filter_cong refl) (simp add: matches_def make_line_vals_def)
  have p3: "process_rows tz a no_fault p2u u2e proj ops (r # rs) st L =
        (if found = [] then
           process_rows tz a no_fault p2u u2e proj ops rs (st1\<lparr>creados := creados st1 + 1\<rparr>)
             \<lparr>lines = lines L @ [(next_id L, vals)], next_id = next_id L + 1\<rparr>
         else if recrear a then
           process_rows tz a no_fault p2u u2e proj ops rs (st1\<lparr>creados := creados st1 + 1\<rparr>)
             \<lparr>lines = filter (\<lambda>l. fst l \<noteq> Min (fst ` set found)) (lines L) @ [(next_id L, vals)],
               next_id = next_id L + 1\<rparr>
         else
           process_rows tz a no_fault p2u u2e proj ops rs
             (st1\<lparr>ya_existian := ya_existian st1 + 1\<rparr>) L)"
    using assms(1,2) h upsert_effect [of L vals "signature r" "recrear a"]
    unfolding assms(5) assms(3) by (simp add: Let_def)
  from p1 signature_inj [of r r'] p3 show ?thesis by blast
qed

theorem upsert_of_record_witness:
  "employee_of ex_p2u ex_u2e (o_autor_partner_id (ex_ops ! 0)) = Some 7
   \<and> \<not> dry_run ex_args
   \<and> signature (ex_ops ! 0) = ''WA[1/0]@10''
   \<and> decimal ''10'' \<and> read_int ''10'' = 10
   \<and> signature (ex_ops ! 0) \<noteq> signature (ex_ops ! 1)
   \<and> process_rows ex_tz ex_args no_fault ex_p2u ex_u2e 3 ex_ops [ex_ops ! 0] summary0 ex_ledger0
       = (Inr \<lparr>creados = 1, ya_existian = 0, omitidos_sin_empleado = Map.empty,
                preview_rows = [(''WA[1/0]@10'',
                  \<lparr>name = ''WhatsApp Acme (21:00-21:10) - Ana [WA[1/0]@10]'', date = - 1,
                    unit_amount = fl (17 / 100), project_id = 3, employee_id = 7\<rparr>)]\<rparr>,
          \<lparr>lines = [(1, \<lparr>name = ''WhatsApp Acme (21:00-21:10) - Ana [WA[1/0]@10]'', date = - 1,
                          unit_amount = fl (17 / 100), project_id = 3, employee_id = 7\<rparr>)],
            next_id = 2\<rparr>)
   \<and> process_rows ex_tz ex_args no_fault ex_p2u ex_u2e 3 ex_ops [ex_ops ! 0] summary0 ex_ledger1
       = (Inr \<lparr>creados = 0, ya_existian = 1, omitidos_sin_empleado = Map.empty,
                preview_rows = [(''WA[1/0]@10'',
                  \<lparr>name = ''WhatsApp Acme (21:00-21:10) - Ana [WA[1/0]@10]'', date = - 1,
                    unit_amount = fl (17 / 100), project_id = 3, employee_id = 7\<rparr>)]\<rparr>,
          ex_ledger1)
   \<and> process_rows ex_tz (ex_args\<lparr>recrear := True\<rparr>) no_fault ex_p2u ex_u2e 3 ex_ops [ex_ops ! 0]
        summary0 ex_ledger_dup
       = (Inr \<lparr>creados = 1, ya_existian = 0, omitidos_sin_empleado = Map.empty,
                preview_rows = [(''WA[1/0]@10'',
                  \<lparr>name = ''WhatsApp Acme (21:00-21:10) - Ana [WA[1/0]@10]'', date = - 1,
                    unit_amount = fl (17 / 100), project_id = 3, employee_id = 7\<rparr>)]\<rparr>,
          \<lparr>lines = [(6, \<lparr>name = ''copia [wa[1/0]@10]'', date = - 1, unit_amount = 1,
                          project_id = 3, employee_id = 7\<rparr>),
                     (9, \<lparr>name = ''WhatsApp Acme (21:00-21:10) - Ana [WA[1/0]@10]'', date = - 1,
                          unit_amount = fl (17 / 100), project_id = 3, employee_id = 7\<rparr>)],
            next_id = 10\<rparr>)"
proof -
  let ?re = "ex_args\<lparr>recrear := True\<rparr>"
  let ?r = "ex_ops ! 0"
  let ?V = "\<lparr>name = ''WhatsApp Acme (21:00-21:10) - Ana [WA[1/0]@10]'', date = - 1,
             unit_amount = fl (17 / 100), project_id = 3, employee_id = 7\<rparr>"
  let ?found = "\<lambda>L. filter (\<lambda>l. ilike (name (snd l)) (''['' @ signature ?r @ '']'')
                   \<and> date (snd l) = o_date_local ?r \<and> project_id (snd l) = 3
                   \<and> employee_id (snd l) = 7) (lines L)"
  have e: "employee_of ex_p2u ex_u2e (o_autor_partner_id ?r) = Some 7"
    by code_simp
  have nd: "\<not> dry_run ex_args" "\<not> dry_run ?re" and nr: "\<not> recrear ex_args"
    by (simp_all add: ex_args_def)
  have s: "signature ?r = ''WA[1/0]@10''"
    by code_simp
  have d: "decimal ''10''" "read_int ''10'' = 10"
    by code_simp+
  have v: "make_line_vals ex_tz (modo ex_args) ex_ops 3 7 ?r = ?V"
    "make_line_vals ex_tz (modo ?re) ex_ops 3 7 ?r = ?V"
    by code_simp+
  have f0: "?found ex_ledger0 = []"
    by (simp add: ex_ledger0_def)
  have f1: "?found ex_ledger1 = [(1, ?V)]"
    by code_simp
  have f2: "?found ex_ledger_dup = lines ex_ledger_dup"
    by code_simp
  have m: "Min (fst ` set (lines ex_ledger_dup)) = 4"
    by (simp add: ex_ledger_dup_def)
  note t0 = upsert_of_record [where tz = ex_tz and a = ex_args and ops = ex_ops and proj = 3
      and emp = 7 and r = ?r and rs = "[]" and st = summary0 and L = ex_ledger0
      and p2u = ex_p2u and u2e = ex_u2e and r' = "ex_ops ! 1", OF e nd(1) refl refl refl]
  note t1 = upsert_of_record [where tz = ex_tz and a = ex_args and ops = ex_ops and proj = 3
      and emp = 7 and r = ?r and rs = "[]" and st = summary0 and L = ex_ledger1
      and p2u = ex_p2u and u2e = ex_u2e, OF e nd(1) refl refl refl]
  note t2 = upsert_of_record [where tz = ex_tz and a = ?re and ops = ex_ops and proj = 3
      and emp = 7 and r = ?r and rs = "[]" and st = summary0 and L = ex_ledger_dup
      and p2u = ex_p2u and u2e = ex_u2e, OF e nd(2) refl refl refl]
  from t0 have i: "signature ?r \<noteq> signature (ex_ops ! 1)"
    by (simp add: ex_ops_def)
  from t0 [THEN conjunct2, THEN conjunct2, unfolded f0, unfolded v]
  have w0: "process_rows ex_tz ex_args no_fault ex_p2u ex_u2e 3 ex_ops [?r] summary0 ex_ledger0
       = (Inr \<lparr>creados = 1, ya_existian = 0, omitidos_sin_empleado = Map.empty,
                preview_rows = [(''WA[1/0]@10'', ?V)]\<rparr>,
          \<lparr>lines = [(1, ?V)], next_id = 2\<rparr>)"
    by (simp add: s summary0_def ex_ledger0_def)
  from t1 [THEN conjunct2, THEN conjunct2, unfolded f1, unfolded v]
  have w1: "process_rows ex_tz ex_args no_fault ex_p2u ex_u2e 3 ex_ops [?r] summary0 ex_ledger1
       = (Inr \<lparr>creados = 0, ya_existian = 1, omitidos_sin_empleado = Map.empty,
                preview_rows = [(''WA[1/0]@10'', ?V)]\<rparr>,
          ex_ledger1)"
    using nr by (simp add: s summary0_def)
  from t2 [THEN conjunct2, THEN conjunct2, unfolded f2 m, unfolded v]
  have w2: "process_rows ex_tz ?re no_fault ex_p2u ex_u2e 3 ex_ops [?r] summary0 ex_ledger_dup
       = (Inr \<lparr>creados = 1, ya_existian = 0, omitidos_sin_empleado = Map.empty,
                preview_rows = [(''WA[1/0]@10'', ?V)]\<rparr>,
          \<lparr>lines = [(6, \<lparr>name = ''copia [wa[1/0]@10]'', date = - 1, unit_amount = 1,
                          project_id = 3, employee_id = 7\<rparr>), (9, ?V)],
            next_id = 10\<rparr>)"
    by (simp add: s summary0_def ex_ledger_dup_def)
  from e nd(1) s d i w0 w1 w2 show ?thesis
    by simp
qed

lemma filter_id_remove1:
  "distinct (map fst xs) \<Longrightarrow> h \<in> set xs \<Longrightarrow> filter (\<lambda>l. fst l \<noteq> fst h) xs = remove1 h xs"
proof (induction xs)
  case Nil
  then show ?case by simp
next
  case (Cons x xs)
  show ?case
  proof (cases "x = h")
    case True
    with Cons.prems have "fst h \<notin> fst ` set xs" by simp
    then have "\<forall>l\<in>set xs. fst l \<noteq> fst h" by (metis imageI)
    then have "filter (\<lambda>l. fst l \<noteq> fst h) xs = xs" by simp
    with True show ?thesis by simp
  next
    case False
    with Cons.prems have hx: "h \<in> set xs" by auto
    with Cons.prems have "fst x \<noteq> fst h" by (metis distinct.simps(2) imageI list.simps(9) set_map)
    with Cons hx False show ?thesis by auto
  qed
qed

lemma Min_fst_witness:
  "hs \<noteq> [] \<Longrightarrow> \<exists>h\<in>set hs. fst h = Min (fst ` set hs) \<and> (\<forall>l\<in>set hs. fst h \<le> fst l)"
proof -
  assume "hs \<noteq> []"
  then have "Min (fst ` set hs) \<in> fst ` set hs" by (intro Min_in) auto
  then obtain h where "h \<in> set hs" "fst h = Min (fst ` set hs)" by force
  then show ?thesis by (intro bexI [of _ h]) auto
qed

text \<open>
  C10. With \<open>recreate\<close> and one or more matching records in a ledger whose ids are
  distinct, the upsert removes exactly one old record, the match \<open>h\<close> of least id, and
  appends the replacement; every other matching record is still in the ledger, unchanged.
\<close>

theorem recreate_deletes_one:
  assumes "distinct (map fst (lines L))" and "hits L vals sig \<noteq> []"
  shows "\<exists>h\<in>set (hits L vals sig).
           (\<forall>l\<in>set (hits L vals sig). fst h \<le> fst l)
           \<and> create_timesheet_if_needed no_fault L vals sig True =
               (Inr (next_id L, True),
                \<lparr>lines = remove1 h (lines L) @ [(next_id L, vals)], next_id = next_id L + 1\<rparr>)
           \<and> (\<forall>l\<in>set (hits L vals sig). l \<noteq> h \<longrightarrow> l \<in> set (remove1 h (lines L)))"
proof -
  from assms(2) obtain h where h: "h \<in> set (hits L vals sig)"
    "fst h = Min (fst ` set (hits L vals sig))" "\<forall>l\<in>set (hits L vals sig). fst h \<le> fst l"
    using Min_fst_witness by blast
  from h(1) have hL: "h \<in> set (lines L)" by (simp add: hits_def)
  have "search no_fault L \<lparr> dom_name = ''['' @ sig @ '']'', dom_date = date vals,
          dom_project_id = project_id vals, dom_employee_id = employee_id vals \<rparr> (Some 1)
        = Inr [fst h]"
    using assms(2) h(2) unfolding search_limit1 hits_def by simp
  then have "create_timesheet_if_needed no_fault L vals sig True =
      (Inr (next_id L, True),
       \<lparr>lines = filter (\<lambda>l. fst l \<noteq> fst h) (lines L) @ [(next_id L, vals)],
         next_id = next_id L + 1\<rparr>)"
    unfolding create_timesheet_if_needed_def Let_def unlink_no_fault create_no_fault by simp
  then have run: "create_timesheet_if_needed no_fault L vals sig True =
      (Inr (next_id L, True),
       \<lparr>lines = remove1 h (lines L) @ [(next_id L, vals)], next_id = next_id L + 1\<rparr>)"
    using filter_id_remove1 [OF assms(1) hL] by simp
  have "\<forall>l\<in>set (hits L vals sig). l \<noteq> h \<longrightarrow> l \<in> set (remove1 h (lines L))"
    by (auto simp: hits_def)
  with h(1) h(3) run show ?thesis by blast
qed

theorem recreate_deletes_one_witness:
  "distinct (map fst (lines ex_ledger_dup))
   \<and> 1 < length (hits ex_ledger_dup ex_vals ''WA[1/0]@10'')
   \<and> (\<exists>h\<in>set (hits ex_ledger_dup ex_vals ''WA[1/0]@10'').
         (\<forall>l\<in>set (hits ex_ledger_dup ex_vals ''WA[1/0]@10''). fst h \<le> fst l)
         \<and> create_timesheet_if_needed no_fault ex_ledger_dup ex_vals ''WA[1/0]@10'' True =
             (Inr (next_id ex_ledger_dup, True),
              \<lparr>lines = remove1 h (lines ex_ledger_dup) @ [(next_id ex_ledger_dup, ex_vals)],
                next_id = next_id ex_ledger_dup + 1\<rparr>)
         \<and> (\<forall>l\<in>set (hits ex_ledger_dup ex_vals ''WA[1/0]@10'').
               l \<noteq> h \<longrightarrow> l \<in> set (remove1 h (lines ex_ledger_dup))))"
proof -
  have d: "distinct (map fst (lines ex_ledger_dup))"
    by (simp add: ex_ledger_dup_def)
  have h: "hits ex_ledger_dup ex_vals ''WA[1/0]@10'' = lines ex_ledger_dup"
    by code_simp
  then have n: "hits ex_ledger_dup ex_vals ''WA[1/0]@10'' \<noteq> []"
    and two: "1 < length (hits ex_ledger_dup ex_vals ''WA[1/0]@10'')"
    by (simp_all add: ex_ledger_dup_def)
  from d two recreate_deletes_one [OF d n] show ?thesis by blast
qed

section \<open>Running the day twice\<close>

lemma contains_append: "contains (a @ m) m"
proof (induction a)
  case Nil
  then show ?case by (cases m) simp_all
next
  case (Cons x a)
  then show ?case by simp
qed

lemma ilike_line_name: "ilike (line_name tz r) (''['' @ signature r @ '']'')"
proof -
  have "line_name tz r =
      (''WhatsApp '' @ (case o_canal r of None \<Rightarrow> ''nan'' | Some c \<Rightarrow> c)
        @ '' ('' @ time_span tz r @ '') - '' @ o_autor r @ '' '') @ (''['' @ signature r @ '']'')"
    by (simp add: line_name_def)
  then show ?thesis
    unfolding ilike_def by (metis contains_append map_append)
qed

lemma search_limit1_any:
  "search srv L d (Some 1) =
     (if search_fault srv d then Inl Fault
      else Inr (if filter (matches d) (lines L) = [] then []
                else [Min (fst ` set (filter (matches d) (lines L)))]))"
  by (simp add: search_def take1_sort Let_def)

lemma keep_when_found:
  assumes "hits L vals sig \<noteq> []"
  shows "create_timesheet_if_needed srv L vals sig False = (Inl Fault, L)
         \<or> create_timesheet_if_needed srv L vals sig False
             = (Inr (Min (fst ` set (hits L vals sig)), False), L)"
  using assms unfolding create_timesheet_if_needed_def Let_def search_limit1_any hits_def
  by simp

lemma first_run_step:
  assumes "create_timesheet_if_needed srv L vals sig False = (Inr x, L')"
    and "ilike (name vals) (''['' @ sig @ '']'')"
  shows "hits L' vals sig \<noteq> [] \<and> (\<exists>ys. lines L' = lines L @ ys)"
proof (cases "hits L vals sig = []")
  case True
  with assms(1) have "create srv L vals = Inr (fst x, L')"
    unfolding create_timesheet_if_needed_def Let_def search_limit1_any hits_def
    by (auto split: if_splits sum.splits)
  then have "lines L' = lines L @ [(next_id L, vals)]"
    by (auto simp: create_def split: if_splits)
  moreover from assms(2) have "matches \<lparr> dom_name = ''['' @ sig @ '']'', dom_date = date vals,
       dom_project_id = project_id vals, dom_employee_id = employee_id vals \<rparr> (next_id L, vals)"
    by (simp add: matches_def)
  ultimately show ?thesis by (auto simp: hits_def filter_empty_conv)
next
  case False
  from keep_when_found [OF False, of srv] assms(1) have "L' = L" by auto
  with False show ?thesis by simp
qed

lemma hits_mono: "lines L' = lines L @ ys \<Longrightarrow> hits L vals sig \<noteq> [] \<Longrightarrow> hits L' vals sig \<noteq> []"
  by (auto simp: hits_def filter_empty_conv)

lemma dry_run_loop:
  "dry_run a \<Longrightarrow>
   \<exists>st'. process_rows tz a srv p2u u2e proj ops rs st L = (Inr st', L)
        \<and> creados st' = creados st \<and> ya_existian st' = ya_existian st"
proof (induction rs arbitrary: st)
  case Nil
  then show ?case by simp
next
  case (Cons r rs)
  show ?case
  proof (cases "employee_of p2u u2e (o_autor_partner_id r)")
    case None
    with Cons.IH [OF Cons.prems, of "st\<lparr>omitidos_sin_empleado :=
        (omitidos_sin_empleado st)(o_autor r \<mapsto>
           (case omitidos_sin_empleado st (o_autor r) of None \<Rightarrow> 0 | Some n \<Rightarrow> n) + 1)\<rparr>"]
    show ?thesis by simp
  next
    case (Some emp)
    with Cons.IH [OF Cons.prems, of "st\<lparr>preview_rows := preview_rows st
        @ [(signature r, make_line_vals tz (modo a) ops proj emp r)]\<rparr>"] Cons.prems
    show ?thesis by (simp add: Let_def)
  qed
qed

lemma first_run_loop:
  assumes "\<not> recrear a" and "\<not> dry_run a"
    and "process_rows tz a srv p2u u2e proj ops rs st L = (Inr st', L')"
  shows "(\<exists>ys. lines L' = lines L @ ys)
    \<and> (\<forall>r\<in>set rs. \<forall>emp. employee_of p2u u2e (o_autor_partner_id r) = Some emp \<longrightarrow>
          hits L' (make_line_vals tz (modo a) ops proj emp r) (signature r) \<noteq> [])
    \<and> creados st' + ya_existian st' = creados st + ya_existian st + upserted p2u u2e rs"
  using assms(3)
proof (induction rs arbitrary: st L)
  case Nil
  then show ?case by (simp add: upserted_def)
next
  case (Cons r rs)
  show ?case
  proof (cases "employee_of p2u u2e (o_autor_partner_id r)")
    case None
    let ?st = "st\<lparr>omitidos_sin_empleado :=
        (omitidos_sin_empleado st)(o_autor r \<mapsto>
           (case omitidos_sin_empleado st (o_autor r) of None \<Rightarrow> 0 | Some n \<Rightarrow> n) + 1)\<rparr>"
    from Cons.prems None have "process_rows tz a srv p2u u2e proj ops rs ?st L = (Inr st', L')"
      by simp
    from Cons.IH [OF this] None show ?thesis by (simp add: upserted_def)
  next
    case (Some emp)
    let ?vals = "make_line_vals tz (modo a) ops proj emp r"
    let ?st1 = "st\<lparr>preview_rows := preview_rows st @ [(signature r, ?vals)]\<rparr>"
    obtain res L1 where step: "create_timesheet_if_needed srv L ?vals (signature r) False = (res, L1)"
      by (cases "create_timesheet_if_needed srv L ?vals (signature r) False") auto
    with Cons.prems Some assms(1,2) obtain i created where res: "res = Inr (i, created)"
      by (cases res) (auto simp: Let_def)
    let ?st2 = "if created then ?st1\<lparr>creados := creados ?st1 + 1\<rparr>
                else ?st1\<lparr>ya_existian := ya_existian ?st1 + 1\<rparr>"
    from Cons.prems Some assms(1,2) step res
    have rest: "process_rows tz a srv p2u u2e proj ops rs ?st2 L1 = (Inr st', L')"
      by (simp add: Let_def)
    note ih = Cons.IH [OF rest]
    have "ilike (name ?vals) (''['' @ signature r @ '']'')"
      unfolding make_line_vals_def using ilike_line_name [of tz r] by simp
    with step res have here: "hits L1 ?vals (signature r) \<noteq> []" "\<exists>ys. lines L1 = lines L @ ys"
      using first_run_step by blast+
    from ih obtain ys where ys: "lines L' = lines L1 @ ys" by blast
    from here(1) ys have a: "hits L' ?vals (signature r) \<noteq> []" by (rule hits_mono [rotated])
    from here(2) ys have b: "\<exists>zs. lines L' = lines L @ zs" by auto
    have c: "creados st' + ya_existian st' = creados st + ya_existian st + upserted p2u u2e (r # rs)"
      using ih Some by (cases created) (simp_all add: upserted_def)
    from a b c ih Some show ?thesis by auto
  qed
qed

lemma second_run_loop:
  assumes "\<not> recrear a" and "\<not> dry_run a"
    and "\<forall>r\<in>set rs. \<forall>emp. employee_of p2u u2e (o_autor_partner_id r) = Some emp \<longrightarrow>
          hits L (make_line_vals tz (modo a) ops proj emp r) (signature r) \<noteq> []"
  shows "snd (process_rows tz a srv p2u u2e proj ops rs st L) = L
    \<and> (\<forall>st'. fst (process_rows tz a srv p2u u2e proj ops rs st L) = Inr st' \<longrightarrow>
          creados st' = creados st \<and> ya_existian st' = ya_existian st + upserted p2u u2e rs)"
  using assms(3)
proof (induction rs arbitrary: st)
  case Nil
  then show ?case by (simp add: upserted_def)
next
  case (Cons r rs)
  then have rest: "\<forall>r\<in>set rs. \<forall>emp. employee_of p2u u2e (o_autor_partner_id r) = Some emp \<longrightarrow>
          hits L (make_line_vals tz (modo a) ops proj emp r) (signature r) \<noteq> []"
    by simp
  show ?case
  proof (cases "employee_of p2u u2e (o_autor_partner_id r)")
    case None
    with Cons.IH [OF rest] show ?thesis by (simp add: upserted_def)
  next
    case (Some emp)
    let ?vals = "make_line_vals tz (modo a) ops proj emp r"
    from Cons.prems Some have "hits L ?vals (signature r) \<noteq> []" by simp
    from keep_when_found [OF this, of srv] Some assms(1,2) Cons.IH [OF rest]
    show ?thesis by (auto simp: Let_def upserted_def)
  qed
qed

text \<open>
  C1. Let a run of main without \<open>recreate\<close> finish on the ledger \<open>L\<close> and leave the ledger
  \<open>L1\<close>. A second run on the same messages and settings, whatever its calls do, leaves
  \<open>L1\<close> as it is: no insert, no delete. When the second run finishes it has created
  nothing, and it has found as already existing every record the first run created or
  found.
\<close>

theorem rerun_writes_nothing:
  assumes "\<not> recrear a"
    and "main tz a srv1 channels ip p2u u2e proj msgs L = (Inr s1, L1)"
  shows "snd (main tz a srv2 channels ip p2u u2e proj msgs L1) = L1
    \<and> (\<forall>s2. fst (main tz a srv2 channels ip p2u u2e proj msgs L1) = Inr s2 \<longrightarrow>
          creados s2 = 0 \<and> ya_existian s2 = creados s1 + ya_existian s1)"
proof -
  from assms(2) obtain sessions ops_per_sess where
    b: "build_sessions_from_messages channels ip msgs (inactividad a) = Inr (sessions, ops_per_sess)"
    by (cases "build_sessions_from_messages channels ip msgs (inactividad a)")
      (auto simp: main_def)
  let ?ops = "merge_left tz (fecha a) ops_per_sess sessions"
  show ?thesis
  proof (cases "sessions = [] \<or> ops_per_sess = []")
    case True
    with assms(2) b show ?thesis by (auto simp: main_def summary0_def)
  next
    case False
    with assms(2) b have run1: "process_rows tz a srv1 p2u u2e proj ?ops ?ops summary0 L = (Inr s1, L1)"
      by (simp add: main_def Let_def)
    from False b have run2: "main tz a srv2 channels ip p2u u2e proj msgs L1
        = process_rows tz a srv2 p2u u2e proj ?ops ?ops summary0 L1"
      by (simp add: main_def Let_def)
    show ?thesis
    proof (cases "dry_run a")
      case True
      from dry_run_loop [OF True, of tz srv1 p2u u2e proj ?ops ?ops summary0 L] run1
      have "L1 = L" "creados s1 = 0" "ya_existian s1 = 0" by (auto simp: summary0_def)
      with dry_run_loop [OF True, of tz srv2 p2u u2e proj ?ops ?ops summary0 L1] run2
      show ?thesis by (auto simp: summary0_def)
    next
      case False
      from first_run_loop [OF assms(1) False run1]
      have m: "\<forall>r\<in>set ?ops. \<forall>emp. employee_of p2u u2e (o_autor_partner_id r) = Some emp \<longrightarrow>
          hits L1 (make_line_vals tz (modo a) ?ops proj emp r) (signature r) \<noteq> []"
        and n: "creados s1 + ya_existian s1 = upserted p2u u2e ?ops"
        by (simp_all add: summary0_def)
      from second_run_loop [OF assms(1) False m, of srv2 summary0] n run2
      show ?thesis by (simp add: summary0_def)
    qed
  qed
qed

theorem rerun_writes_nothing_witness:
  "\<not> recrear ex_args
   \<and> (\<exists>s1. main ex_tz ex_args no_fault ex_channels ex_internal ex_p2u ex_u2e 3 ex_msgs ex_ledger0
             = (Inr s1, ex_ledger1))
   \<and> snd (main ex_tz ex_args no_fault ex_channels ex_internal ex_p2u ex_u2e 3 ex_msgs ex_ledger1)
       = ex_ledger1"
proof -
  have r: "\<not> recrear ex_args"
    by (simp add: ex_args_def)
  have "snd (main ex_tz ex_args no_fault ex_channels ex_internal ex_p2u ex_u2e 3 ex_msgs ex_ledger0)
      = ex_ledger1"
    by code_simp
  moreover have
    "\<not> isl (fst (main ex_tz ex_args no_fault ex_channels ex_internal ex_p2u ex_u2e 3 ex_msgs ex_ledger0))"
    by code_simp
  ultimately obtain s1 where
    h: "main ex_tz ex_args no_fault ex_channels ex_internal ex_p2u ex_u2e 3 ex_msgs ex_ledger0
          = (Inr s1, ex_ledger1)"
    by (cases "main ex_tz ex_args no_fault ex_channels ex_internal ex_p2u ex_u2e 3 ex_msgs ex_ledger0";
        cases "fst (main ex_tz ex_args no_fault ex_channels ex_internal ex_p2u ex_u2e 3 ex_msgs ex_ledger0)")
      auto
  from rerun_writes_nothing [OF r h, of no_fault] r h show ?thesis by blast
qed

section \<open>A call that raises\<close>

lemma process_rows_append:
  "process_rows tz a srv p2u u2e proj ops (xs @ ys) st L =
     (case process_rows tz a srv p2u u2e proj ops xs st L of
        (Inl e, L1) \<Rightarrow> (Inl e, L1)
      | (Inr st1, L1) \<Rightarrow> process_rows tz a srv p2u u2e proj ops ys st1 L1)"
proof (induction xs arbitrary: st L)
  case Nil
  then show ?case by simp
next
  case (Cons r xs)
  show ?case
  proof (cases "employee_of p2u u2e (o_autor_partner_id r)")
    case None
    then show ?thesis by (simp add: Cons.IH)
  next
    case (Some emp)
    then show ?thesis
      by (simp add: Cons.IH Let_def split: prod.splits sum.splits)
  qed
qed

lemma upsert_any_server:
  assumes "d = \<lparr> dom_name = ''['' @ sig @ '']'', dom_date = date vals,
                 dom_project_id = project_id vals, dom_employee_id = employee_id vals \<rparr>"
    and "found = filter (matches d) (lines L)"
    and "L1 = L\<lparr>lines := filter (\<lambda>l. fst l \<noteq> Min (fst ` set found)) (lines L)\<rparr>"
  shows "create_timesheet_if_needed srv L vals sig recreate =
     (if search_fault srv d then (Inl Fault, L)
      else if found = [] then
        (if create_fault srv vals then (Inl Fault, L)
         else (Inr (next_id L, True),
               \<lparr>lines = lines L @ [(next_id L, vals)], next_id = next_id L + 1\<rparr>))
      else if recreate then
        (if unlink_fault srv [Min (fst ` set found)] then (Inl Fault, L)
         else if create_fault srv vals then (Inl Fault, L1)
         else (Inr (next_id L, True),
               \<lparr>lines = lines L1 @ [(next_id L, vals)], next_id = next_id L + 1\<rparr>))
      else (Inr (Min (fst ` set found), False), L))"
  unfolding create_timesheet_if_needed_def Let_def search_limit1_any assms unlink_def create_def
  by simp

lemma main_loop:
  assumes "build_sessions_from_messages channels ip msgs (inactividad a) = Inr (sessions, ops_per_sess)"
  shows "main tz a srv channels ip p2u u2e proj msgs L =
     (if sessions = [] \<or> ops_per_sess = [] then (Inr summary0, L)
      else process_rows tz a srv p2u u2e proj (merge_left tz (fecha a) ops_per_sess sessions)
             (merge_left tz (fecha a) ops_per_sess sessions) summary0 L)"
  using assms by (simp add: main_def Let_def)

lemma loop_stops_at_fault:
  assumes "\<not> dry_run a"
    and "process_rows tz a srv p2u u2e proj ops pre st L = (Inr st1, L1)"
    and "employee_of p2u u2e (o_autor_partner_id r) = Some emp"
    and "create_timesheet_if_needed srv L1 (make_line_vals tz (modo a) ops proj emp r)
           (signature r) (recrear a) = (Inl e, L2)"
  shows "process_rows tz a srv p2u u2e proj ops (pre @ r # rest) st L = (Inl e, L2)"
  using assms by (simp add: process_rows_append Let_def)

text \<open>
  C7, as the code has it. Nothing catches an exception of a ledger call. Let main have
  processed the rows \<open>pre\<close> of its table and let \<open>r\<close> be the next row, one that reaches the
  upsert. When the search of the upsert raises, or the search finds nothing and the create
  raises, or with \<open>recrear\<close> the unlink of the record found raises, main ends with that
  exception and the ledger as it was before \<open>r\<close>. When with \<open>recrear\<close> the unlink succeeds
  and the create raises, main ends with that exception and the ledger without the record
  found. In every case the rows \<open>rest\<close> after \<open>r\<close> are not processed, whatever they are.
\<close>

theorem upsert_fault_ends_main:
  assumes "build_sessions_from_messages channels ip msgs (inactividad a) = Inr (sessions, ops_per_sess)"
    and "sessions \<noteq> []" and "ops_per_sess \<noteq> []"
    and "merge_left tz (fecha a) ops_per_sess sessions = pre @ r # rest"
    and "process_rows tz a srv p2u u2e proj (pre @ r # rest) pre summary0 L = (Inr st1, L1)"
    and "employee_of p2u u2e (o_autor_partner_id r) = Some emp"
    and "\<not> dry_run a"
    and "vals = make_line_vals tz (modo a) (pre @ r # rest) proj emp r"
    and "d = \<lparr> dom_name = ''['' @ signature r @ '']'', dom_date = date vals,
                 dom_project_id = project_id vals, dom_employee_id = employee_id vals \<rparr>"
    and "found = filter (matches d) (lines L1)"
  shows "(search_fault srv d \<longrightarrow>
            main tz a srv channels ip p2u u2e proj msgs L = (Inl Fault, L1))
    \<and> (\<not> search_fault srv d \<and> found = [] \<and> create_fault srv vals \<longrightarrow>
            main tz a srv channels ip p2u u2e proj msgs L = (Inl Fault, L1))
    \<and> (\<not> search_fault srv d \<and> found \<noteq> [] \<and> recrear a
          \<and> unlink_fault srv [Min (fst ` set found)] \<longrightarrow>
            main tz a srv channels ip p2u u2e proj msgs L = (Inl Fault, L1))
    \<and> (\<not> search_fault srv d \<and> found \<noteq> [] \<and> recrear a
          \<and> \<not> unlink_fault srv [Min (fst ` set found)] \<and> create_fault srv vals \<longrightarrow>
            main tz a srv channels ip p2u u2e proj msgs L
              = (Inl Fault,
                 L1\<lparr>lines := filter (\<lambda>l. fst l \<noteq> Min (fst ` set found)) (lines L1)\<rparr>))"
proof -
  let ?ops = "pre @ r # rest"
  from main_loop [OF assms(1)] assms(2,3,4)
  have m: "main tz a srv channels ip p2u u2e proj msgs L
      = process_rows tz a srv p2u u2e proj ?ops ?ops summary0 L"
    by simp
  note u = upsert_any_server [OF assms(9) assms(10) refl, of srv "recrear a"]
  have stop: "main tz a srv channels ip p2u u2e proj msgs L = (Inl Fault, L2)"
    if "create_timesheet_if_needed srv L1 vals (signature r) (recrear a) = (Inl Fault, L2)" for L2
    unfolding m using loop_stops_at_fault [OF assms(7) assms(5) assms(6)] that
    unfolding assms(8) by simp
  show ?thesis
  proof (intro conjI impI)
    assume "search_fault srv d"
    with u show "main tz a srv channels ip p2u u2e proj msgs L = (Inl Fault, L1)"
      by (intro stop) simp
  next
    assume "\<not> search_fault srv d \<and> found = [] \<and> create_fault srv vals"
    with u show "main tz a srv channels ip p2u u2e proj msgs L = (Inl Fault, L1)"
      by (intro stop) simp
  next
    assume "\<not> search_fault srv d \<and> found \<noteq> [] \<and> recrear a
          \<and> unlink_fault srv [Min (fst ` set found)]"
    with u show "main tz a srv channels ip p2u u2e proj msgs L = (Inl Fault, L1)"
      by (intro stop) simp
  next
    assume "\<not> search_fault srv d \<and> found \<noteq> [] \<and> recrear a
          \<and> \<not> unlink_fault srv [Min (fst ` set found)] \<and> create_fault srv vals"
    with u show "main tz a srv channels ip p2u u2e proj msgs L
              = (Inl Fault,
                 L1\<lparr>lines := filter (\<lambda>l. fst l \<noteq> Min (fst ` set found)) (lines L1)\<rparr>)"
      by (intro stop) simp
  qed
qed

theorem upsert_fault_ends_main_witness:
  "build_sessions_from_messages ex_channels ex_internal ex_msgs (inactividad ex_args)
     = Inr ([ex_session], [ex_ana, ex_beto])
   \<and> merge_left ex_tz (fecha ex_args) [ex_ana, ex_beto] [ex_session] = [ex_ops ! 0, ex_ops ! 1]
   \<and> main ex_tz ex_args (no_fault\<lparr>search_fault := (\<lambda>_. True)\<rparr>) ex_channels ex_internal
        ex_p2u ex_u2e 3 ex_msgs ex_ledger0 = (Inl Fault, ex_ledger0)
   \<and> main ex_tz ex_args ex_srv_ana_fails ex_channels ex_internal ex_p2u ex_u2e 3 ex_msgs ex_ledger0
       = (Inl Fault, ex_ledger0)
   \<and> main ex_tz (ex_args\<lparr>recrear := True\<rparr>) (no_fault\<lparr>unlink_fault := (\<lambda>_. True)\<rparr>) ex_channels
        ex_internal ex_p2u ex_u2e 3 ex_msgs ex_ledger1 = (Inl Fault, ex_ledger1)
   \<and> main ex_tz (ex_args\<lparr>recrear := True\<rparr>) (no_fault\<lparr>create_fault := (\<lambda>v. employee_id v = 8)\<rparr>)
        ex_channels ex_internal ex_p2u ex_u2e 3 ex_msgs ex_ledger1
       = (Inl Fault,
          \<lparr>lines = [(3, \<lparr>name = ''WhatsApp Acme (21:00-21:10) - Ana [WA[1/0]@10]'', date = - 1,
                          unit_amount = fl (17 / 100), project_id = 3, employee_id = 7\<rparr>)],
            next_id = 4\<rparr>)"
proof -
  let ?re = "ex_args\<lparr>recrear := True\<rparr>"
  let ?s1 = "no_fault\<lparr>search_fault := (\<lambda>_. True)\<rparr>"
  let ?s3 = "no_fault\<lparr>unlink_fault := (\<lambda>_. True)\<rparr>"
  let ?s4 = "no_fault\<lparr>create_fault := (\<lambda>v. employee_id v = 8)\<rparr>"
  let ?ana = "ex_ops ! 0"
  let ?beto = "ex_ops ! 1"
  let ?L1 = "\<lparr>lines = [(2, \<lparr>name = ''WhatsApp nan (0m) - Beto [WA[2/0]@11]'', date = 20000,
                          unit_amount = 0, project_id = 3, employee_id = 8\<rparr>),
                     (3, \<lparr>name = ''WhatsApp Acme (21:00-21:10) - Ana [WA[1/0]@10]'', date = - 1,
                          unit_amount = fl (17 / 100), project_id = 3, employee_id = 7\<rparr>)],
               next_id = 4\<rparr>"
  have b: "build_sessions_from_messages ex_channels ex_internal ex_msgs (inactividad ex_args)
      = Inr ([ex_session], [ex_ana, ex_beto])"
    and b': "build_sessions_from_messages ex_channels ex_internal ex_msgs (inactividad ?re)
      = Inr ([ex_session], [ex_ana, ex_beto])"
    by code_simp+
  have ne: "[ex_session] \<noteq> []" "[ex_ana, ex_beto] \<noteq> []"
    by simp_all
  have mg: "merge_left ex_tz (fecha ex_args) [ex_ana, ex_beto] [ex_session] = [ex_ops ! 0, ex_ops ! 1]"
    and mg': "merge_left ex_tz (fecha ?re) [ex_ana, ex_beto] [ex_session] = [ex_ops ! 0, ex_ops ! 1]"
    by code_simp+
  have m0: "merge_left ex_tz (fecha ex_args) [ex_ana, ex_beto] [ex_session] = [] @ ?ana # [?beto]"
    and m0': "merge_left ex_tz (fecha ?re) [ex_ana, ex_beto] [ex_session] = [] @ ?ana # [?beto]"
    and m1': "merge_left ex_tz (fecha ?re) [ex_ana, ex_beto] [ex_session] = [?ana] @ ?beto # []"
    using mg mg' by simp_all
  have nd: "\<not> dry_run ex_args" "\<not> dry_run ?re"
    by (simp_all add: ex_args_def)
  have re: "recrear ?re"
    by simp
  have ea: "employee_of ex_p2u ex_u2e (o_autor_partner_id ?ana) = Some 7"
    and eb: "employee_of ex_p2u ex_u2e (o_autor_partner_id ?beto) = Some 8"
    by code_simp+
  have p0: "process_rows tz a srv ex_p2u ex_u2e 3 ([] @ ?ana # [?beto]) [] summary0 L
      = (Inr summary0, L)" for tz a srv L
    by simp
  have "snd (process_rows ex_tz ?re ?s4 ex_p2u ex_u2e 3 ([?ana] @ ?beto # []) [?ana] summary0 ex_ledger1)
      = ?L1"
    by code_simp
  moreover have "\<not> isl (fst (process_rows ex_tz ?re ?s4 ex_p2u ex_u2e 3 ([?ana] @ ?beto # [])
      [?ana] summary0 ex_ledger1))"
    by code_simp
  ultimately obtain st1 where
    p1: "process_rows ex_tz ?re ?s4 ex_p2u ex_u2e 3 ([?ana] @ ?beto # []) [?ana] summary0 ex_ledger1
      = (Inr st1, ?L1)"
    by (cases "process_rows ex_tz ?re ?s4 ex_p2u ex_u2e 3 ([?ana] @ ?beto # []) [?ana] summary0 ex_ledger1";
        cases "fst (process_rows ex_tz ?re ?s4 ex_p2u ex_u2e 3 ([?ana] @ ?beto # []) [?ana] summary0
                 ex_ledger1)")
      auto
  let ?va = "make_line_vals ex_tz (modo ex_args) ([] @ ?ana # [?beto]) 3 7 ?ana"
  let ?va' = "make_line_vals ex_tz (modo ?re) ([] @ ?ana # [?beto]) 3 7 ?ana"
  let ?vb' = "make_line_vals ex_tz (modo ?re) ([?ana] @ ?beto # []) 3 8 ?beto"
  let ?da = "\<lparr> dom_name = ''['' @ signature ?ana @ '']'', dom_date = date ?va,
                dom_project_id = project_id ?va, dom_employee_id = employee_id ?va \<rparr>"
  let ?da' = "\<lparr> dom_name = ''['' @ signature ?ana @ '']'', dom_date = date ?va',
                dom_project_id = project_id ?va', dom_employee_id = employee_id ?va' \<rparr>"
  let ?db' = "\<lparr> dom_name = ''['' @ signature ?beto @ '']'', dom_date = date ?vb',
                dom_project_id = project_id ?vb', dom_employee_id = employee_id ?vb' \<rparr>"
  have f0: "filter (matches ?da) (lines ex_ledger0) = []"
    by (simp add: ex_ledger0_def)
  have f1: "filter (matches ?da') (lines ex_ledger1) \<noteq> []"
    "Min (fst ` set (filter (matches ?da') (lines ex_ledger1))) = 1"
    by code_simp+
  have f2: "filter (matches ?db') (lines ?L1) \<noteq> []"
    "Min (fst ` set (filter (matches ?db') (lines ?L1))) = 2"
    by code_simp+
  have c1: "search_fault ?s1 ?da"
    by simp
  have c2: "\<not> search_fault ex_srv_ana_fails ?da \<and> filter (matches ?da) (lines ex_ledger0) = []
      \<and> create_fault ex_srv_ana_fails ?va"
    using f0 by (simp add: ex_srv_ana_fails_def make_line_vals_def)
  have c3: "\<not> search_fault ?s3 ?da' \<and> filter (matches ?da') (lines ex_ledger1) \<noteq> [] \<and> recrear ?re
      \<and> unlink_fault ?s3 [Min (fst ` set (filter (matches ?da') (lines ex_ledger1)))]"
    using f1 by (simp add: no_fault_def)
  have c4: "\<not> search_fault ?s4 ?db' \<and> filter (matches ?db') (lines ?L1) \<noteq> [] \<and> recrear ?re
      \<and> \<not> unlink_fault ?s4 [Min (fst ` set (filter (matches ?db') (lines ?L1)))]
      \<and> create_fault ?s4 ?vb'"
    using f2 by (simp add: no_fault_def make_line_vals_def)
  from upsert_fault_ends_main [OF b ne m0 p0 ea nd(1) refl refl refl, of ?s1 ex_ledger0] c1
  have r1: "main ex_tz ex_args ?s1 ex_channels ex_internal ex_p2u ex_u2e 3 ex_msgs ex_ledger0
      = (Inl Fault, ex_ledger0)"
    by blast
  from upsert_fault_ends_main [OF b ne m0 p0 ea nd(1) refl refl refl, of ex_srv_ana_fails ex_ledger0] c2
  have r2: "main ex_tz ex_args ex_srv_ana_fails ex_channels ex_internal ex_p2u ex_u2e 3 ex_msgs
      ex_ledger0 = (Inl Fault, ex_ledger0)"
    by blast
  from upsert_fault_ends_main [OF b' ne m0' p0 ea nd(2) refl refl refl, of ?s3 ex_ledger1] c3
  have r3: "main ex_tz ?re ?s3 ex_channels ex_internal ex_p2u ex_u2e 3 ex_msgs ex_ledger1
      = (Inl Fault, ex_ledger1)"
    by blast
  from upsert_fault_ends_main [OF b' ne m1' p1 eb nd(2) refl refl refl] c4
  have "main ex_tz ?re ?s4 ex_channels ex_internal ex_p2u ex_u2e 3 ex_msgs ex_ledger1
      = (Inl Fault, ?L1\<lparr>lines := filter (\<lambda>l. fst l \<noteq>
            Min (fst ` set (filter (matches ?db') (lines ?L1)))) (lines ?L1)\<rparr>)"
    by blast
  then have r4: "main ex_tz ?re ?s4 ex_channels ex_internal ex_p2u ex_u2e 3 ex_msgs ex_ledger1
      = (Inl Fault,
          \<lparr>lines = [(3, \<lparr>name = ''WhatsApp Acme (21:00-21:10) - Ana [WA[1/0]@10]'', date = - 1,
                          unit_amount = fl (17 / 100), project_id = 3, employee_id = 7\<rparr>)],
            next_id = 4\<rparr>)"
    unfolding f2(2) by simp
  from b mg r1 r2 r3 r4 show ?thesis
    by simp
qed

text \<open>
  C7 as stated fails: on the day above with a server that refuses to create Ana's record,
  main ends with the exception and an empty ledger. Beto's record, whose creation would
  not raise and which a run without failure writes, is never attempted.
\<close>

theorem fault_skips_later_records:
  "isl (fst (main ex_tz ex_args ex_srv_ana_fails ex_channels ex_internal ex_p2u ex_u2e 3 ex_msgs ex_ledger0))
   \<and> snd (main ex_tz ex_args ex_srv_ana_fails ex_channels ex_internal ex_p2u ex_u2e 3 ex_msgs ex_ledger0)
       = ex_ledger0
   \<and> \<not> create_fault ex_srv_ana_fails
         \<lparr>name = ''WhatsApp nan (0m) - Beto [WA[2/0]@11]'', date = 20000, unit_amount = 0,
           project_id = 3, employee_id = 8\<rparr>
   \<and> snd (main ex_tz ex_args no_fault ex_channels ex_internal ex_p2u ex_u2e 3 ex_msgs ex_ledger0)
       = ex_ledger1"
  by code_simp

section \<open>Qualifying sessions\<close>

lemma agg_member:
  "s \<in> set (agg k g) \<Longrightarrow>
   g \<noteq> [] \<and> key_of s = k \<and> s_msgs_total s = length g
   \<and> s_msgs_oper s = length (filter d_es_operador g)
   \<and> s_msgs_user s = length (filter (\<lambda>r. \<not> d_es_operador r) g)"
  by (auto simp: agg_def key_of_def Let_def split: list.splits)

lemma sessions_all_member:
  assumes "s \<in> set (sessions_all sdf)"
  shows "s \<in> set (agg (key_of s) (group_rows sdf (key_of s)))"
proof -
  from assms have "\<exists>k. s \<in> set (agg k (group_rows sdf k))"
    by (auto simp: sessions_all_def simp del: split_paired_Ex)
  then obtain k where "s \<in> set (agg k (group_rows sdf k))" ..
  moreover from this have "key_of s = k" by (simp add: agg_member)
  ultimately show ?thesis by simp
qed

lemma sessions_all_kept:
  assumes "x \<in> set sdf"
  shows "\<exists>s\<in>set (sessions_all sdf). key_of s = session_key x
           \<and> s \<in> set (agg (session_key x) (group_rows sdf (session_key x)))"
proof -
  let ?k = "session_key x"
  from assms have "fst x \<in> set (group_rows sdf ?k)" by (force simp: group_rows_def)
  then obtain r rs where g: "group_rows sdf ?k = r # rs" by (cases "group_rows sdf ?k") auto
  then obtain s where s: "agg ?k (group_rows sdf ?k) = [s]"
    by (simp add: agg_def Let_def)
  then have "key_of s = ?k" using agg_member [of s ?k "group_rows sdf ?k"] by simp
  moreover from assms have "?k \<in> set (sort (remdups (map session_key sdf)))" by simp
  then have "s \<in> set (sessions_all sdf)"
    unfolding sessions_all_def set_concat using s by force
  ultimately show ?thesis using s by auto
qed

lemma two_roles_two_rows:
  assumes "0 < length (filter P g)" and "0 < length (filter (\<lambda>r. \<not> P r) g)"
  shows "2 \<le> length g"
  using assms sum_length_filter_compl [of P g] by linarith

text \<open>
  The left merge keeps a row of \<^verbatim>\<open>ops_per_sess\<close> whose session is not in \<^verbatim>\<open>sessions\<close>,
  with duration 0 and the requested day.
\<close>

lemma unmatched_rows_kept:
  assumes "p \<in> set ops_per_sess"
    and "\<not> (\<exists>s\<in>set sessions. s_channel_id s = p_channel_id p \<and> s_session_id s = p_session_id p)"
  shows "joined tz d p None \<in> set (merge_left tz d ops_per_sess sessions)
         \<and> o_dur_min (joined tz d p None) = 0 \<and> o_date_local (joined tz d p None) = d"
proof -
  from assms(2) have "filter (\<lambda>s. s_channel_id s = p_channel_id p \<and> s_session_id s = p_session_id p)
      sessions = []"
    by (auto simp: filter_empty_conv)
  with assms(1) have "joined tz d p None \<in> set (merge_left tz d ops_per_sess sessions)"
    unfolding merge_left_def set_concat by force
  then show ?thesis by (simp add: joined_def fillna_def)
qed

section \<open>Messages without author\<close>

lemma dropna_authorless:
  "\<forall>r\<in>set rs. autor_partner_id r = None \<longrightarrow> \<not> es_operador r \<Longrightarrow>
   \<forall>r\<in>set (dropna rs). d_autor_partner_id r = None \<longrightarrow> \<not> d_es_operador r"
  by (induction rs) (auto split: option.splits)

lemma make_row_authorless:
  "autor_partner_id (make_row ch_map ip m) = None \<longrightarrow> \<not> es_operador (make_row ch_map ip m)"
  by (simp add: make_row_def split: option.splits)

lemma ingest_authorless:
  "r \<in> set (ingest ch_map ip msgs) \<Longrightarrow> d_autor_partner_id r = None \<Longrightarrow> \<not> d_es_operador r"
proof -
  have "\<forall>r\<in>set (make_rows ch_map ip msgs). autor_partner_id r = None \<longrightarrow> \<not> es_operador r"
    unfolding make_rows_def using make_row_authorless by auto
  from dropna_authorless [OF this] show
    "r \<in> set (ingest ch_map ip msgs) \<Longrightarrow> d_autor_partner_id r = None \<Longrightarrow> \<not> d_es_operador r"
    by (simp add: ingest_def sort_values_def)
qed

lemma op_keys_authorless:
  "op_keys (filter (\<lambda>x. d_autor_partner_id (fst x) \<noteq> None) sdf) = op_keys sdf"
  by (induction sdf rule: op_keys.induct) (auto split: option.splits)

lemma with_sessions_fst: "x \<in> set (with_sessions T df) \<Longrightarrow> fst x \<in> set df"
  unfolding with_sessions_def by (metis in_set_zipE prod.collapse)

text \<open>
  C9. A message without author gives a row that is not an operator row and has no partner.
  Whenever a session holds such a row \<open>x\<close> and an operator row \<open>y\<close>, the session is in the
  table \<^verbatim>\<open>sessions\<close>, with both counts positive. The rows without partner add nothing to
  \<^verbatim>\<open>ops_per_sess\<close>, the table every attribution record comes from: it is the same with
  those rows taken away.
\<close>

theorem authorless_is_requester:
  assumes "build_sessions_from_messages channels ip msgs T = Inr (sessions, ops_per_sess)"
  shows "(m_author_id m = None \<longrightarrow>
      \<not> es_operador (make_row ch_map ip m) \<and> autor_partner_id (make_row ch_map ip m) = None)
   \<and> (\<forall>x\<in>set (with_sessions T (ingest (ch_map_of channels) ip msgs)).
       \<forall>y\<in>set (with_sessions T (ingest (ch_map_of channels) ip msgs)).
         session_key x = session_key y \<and> d_autor_partner_id (fst x) = None \<and> d_es_operador (fst y)
         \<longrightarrow> (\<exists>s\<in>set sessions.
                key_of s = session_key x \<and> 0 < s_msgs_user s \<and> 0 < s_msgs_oper s))
   \<and> ops_per_sess
       = ops_per_sess_of (filter (\<lambda>x. d_autor_partner_id (fst x) \<noteq> None)
           (with_sessions T (ingest (ch_map_of channels) ip msgs)))"
proof -
  let ?sdf = "with_sessions T (ingest (ch_map_of channels) ip msgs)"
  from build_tables [OF assms] have tables: "sessions = sessions_of ?sdf"
    "ops_per_sess = ops_per_sess_of ?sdf"
    by simp_all
  have a: "m_author_id m = None \<longrightarrow>
      \<not> es_operador (make_row ch_map ip m) \<and> autor_partner_id (make_row ch_map ip m) = None"
    by (simp add: make_row_def)
  have b: "\<exists>s\<in>set sessions. key_of s = session_key x \<and> 0 < s_msgs_user s \<and> 0 < s_msgs_oper s"
    if x: "x \<in> set ?sdf" and y: "y \<in> set ?sdf" and k: "session_key x = session_key y"
      and n: "d_autor_partner_id (fst x) = None" and o: "d_es_operador (fst y)" for x y
  proof -
    let ?g = "group_rows ?sdf (session_key x)"
    from sessions_all_kept [OF x] obtain s where s: "s \<in> set (sessions_all ?sdf)"
      "key_of s = session_key x" "s \<in> set (agg (session_key x) ?g)"
      by blast
    from ingest_authorless [OF with_sessions_fst [OF x] n] have "\<not> d_es_operador (fst x)" .
    moreover from x have "fst x \<in> set ?g" by (force simp: group_rows_def)
    ultimately have "filter (\<lambda>r. \<not> d_es_operador r) ?g \<noteq> []"
      by (auto simp: filter_empty_conv)
    moreover from y k have "fst y \<in> set ?g" by (force simp: group_rows_def)
    with o have "filter d_es_operador ?g \<noteq> []" by (auto simp: filter_empty_conv)
    moreover note agg_member [OF s(3)]
    ultimately have "0 < s_msgs_user s" "0 < s_msgs_oper s" by simp_all
    with s(1,2) tables(1) show ?thesis
      by (auto simp: sessions_of_def)
  qed
  have c: "ops_per_sess = ops_per_sess_of (filter (\<lambda>x. d_autor_partner_id (fst x) \<noteq> None) ?sdf)"
    unfolding tables(2) ops_per_sess_of_def op_keys_authorless by simp
  show ?thesis
  proof (intro conjI ballI impI)
    show "\<not> es_operador (make_row ch_map ip m)" if "m_author_id m = None"
      using a that by simp
    show "autor_partner_id (make_row ch_map ip m) = None" if "m_author_id m = None"
      using a that by simp
    show "\<exists>s\<in>set sessions. key_of s = session_key x \<and> 0 < s_msgs_user s \<and> 0 < s_msgs_oper s"
      if "x \<in> set ?sdf" "y \<in> set ?sdf"
        "session_key x = session_key y \<and> d_autor_partner_id (fst x) = None \<and> d_es_operador (fst y)"
      for x y
      using b [of x y] that by simp
    show "ops_per_sess = ops_per_sess_of (filter (\<lambda>x. d_autor_partner_id (fst x) \<noteq> None) ?sdf)"
      by (rule c)
  qed
qed

theorem authorless_is_requester_witness:
  "build_sessions_from_messages ex_channels ex_internal ex_authorless 45
     = Inr ([ex_session\<lparr>s_fin := 60, s_dur_min := 1\<rparr>], [ex_ana])
   \<and> m_author_id (ex_authorless ! 1) = None
   \<and> \<not> es_operador (make_row (ch_map_of ex_channels) ex_internal (ex_authorless ! 1))
   \<and> (\<exists>s\<in>set [ex_session\<lparr>s_fin := 60, s_dur_min := 1\<rparr>].
         key_of s = (''Acme'', 1, 0) \<and> 0 < s_msgs_user s \<and> 0 < s_msgs_oper s)"
proof -
  let ?x = "(\<lparr>d_msg_id = 2, d_channel_id = 1, d_canal = ''Acme'', fecha_local = 60,
               d_autor_partner_id = None, d_autor = [], d_es_operador = False\<rparr>, 0::int)"
  let ?y = "(\<lparr>d_msg_id = 1, d_channel_id = 1, d_canal = ''Acme'', fecha_local = 0,
               d_autor_partner_id = Some 10, d_autor = ''Ana'', d_es_operador = True\<rparr>, 0::int)"
  have b: "build_sessions_from_messages ex_channels ex_internal ex_authorless 45
     = Inr ([ex_session\<lparr>s_fin := 60, s_dur_min := 1\<rparr>], [ex_ana])"
    by code_simp
  have a: "m_author_id (ex_authorless ! 1) = None"
    by (simp add: ex_authorless_def)
  have sdf: "with_sessions 45 (ingest (ch_map_of ex_channels) ex_internal ex_authorless) = [?y, ?x]"
    by code_simp
  have k: "session_key ?x = (''Acme'', 1, 0)" "session_key ?y = (''Acme'', 1, 0)"
    by (simp_all add: session_key_def)
  note t = authorless_is_requester [OF b, of "ex_authorless ! 1", unfolded sdf]
  from t a have e: "\<not> es_operador (make_row (ch_map_of ex_channels) ex_internal (ex_authorless ! 1))"
    by blast
  from t have "session_key ?x = session_key ?y \<and> d_autor_partner_id (fst ?x) = None
      \<and> d_es_operador (fst ?y) \<longrightarrow>
      (\<exists>s\<in>set [ex_session\<lparr>s_fin := 60, s_dur_min := 1\<rparr>].
           key_of s = session_key ?x \<and> 0 < s_msgs_user s \<and> 0 < s_msgs_oper s)"
    by (metis list.set_intros(1) list.set_intros(2))
  with k have "\<exists>s\<in>set [ex_session\<lparr>s_fin := 60, s_dur_min := 1\<rparr>].
           key_of s = (''Acme'', 1, 0) \<and> 0 < s_msgs_user s \<and> 0 < s_msgs_oper s"
    by simp
  with a b e show ?thesis by simp
qed

section \<open>Weights\<close>


























section \<open>Sessions that reach attribution\<close>

lemma op_keys_operator:
  "k \<in> set (op_keys sdf) \<Longrightarrow>
   \<exists>x\<in>set sdf. d_es_operador (fst x) \<and> d_channel_id (fst x) = fst k \<and> snd x = fst (snd k)
     \<and> d_autor_partner_id (fst x) = Some (fst (snd (snd k)))"
  by (induction sdf rule: op_keys.induct) (auto split: if_splits option.splits)

lemma op_keys_complete:
  "x \<in> set sdf \<Longrightarrow> d_es_operador (fst x) \<Longrightarrow> d_autor_partner_id (fst x) = Some p \<Longrightarrow>
   (d_channel_id (fst x), snd x, p, d_autor (fst x)) \<in> set (op_keys sdf)"
  by (induction sdf rule: op_keys.induct) (auto split: if_splits option.splits)

lemma ops_per_sess_keys:
  "(\<lambda>p. (p_channel_id p, p_session_id p, p_autor_partner_id p, p_autor p)) ` set (ops_per_sess_of sdf)
   = set (op_keys sdf)"
  by (force simp: ops_per_sess_of_def Let_def image_image)

lemma merge_left_source:
  assumes "r \<in> set (merge_left tz d ops_per_sess sessions)"
  shows "\<exists>p\<in>set ops_per_sess.
           (r = joined tz d p None
            \<or> (\<exists>s\<in>set sessions. s_channel_id s = p_channel_id p \<and> s_session_id s = p_session_id p
                  \<and> r = joined tz d p (Some s)))"
proof -
  from assms obtain p where p: "p \<in> set ops_per_sess"
    and r: "r \<in> set (case filter (\<lambda>s. s_channel_id s = p_channel_id p
                 \<and> s_session_id s = p_session_id p) sessions of
          [] \<Rightarrow> [joined tz d p None]
        | ms \<Rightarrow> map (\<lambda>s. joined tz d p (Some s)) ms)"
    by (auto simp: merge_left_def)
  show ?thesis
  proof (cases "filter (\<lambda>s. s_channel_id s = p_channel_id p \<and> s_session_id s = p_session_id p) sessions")
    case Nil
    with r p show ?thesis by auto
  next
    case (Cons m ms)
    with r have "r \<in> (\<lambda>s. joined tz d p (Some s)) ` set (filter (\<lambda>s. s_channel_id s = p_channel_id p
        \<and> s_session_id s = p_session_id p) sessions)"
      by simp
    then obtain s where "s \<in> set sessions" "s_channel_id s = p_channel_id p"
      "s_session_id s = p_session_id p" "r = joined tz d p (Some s)"
      by auto
    with p show ?thesis by blast
  qed
qed

lemma merge_left_keeps:
  assumes "p \<in> set ops_per_sess"
  shows "\<exists>r\<in>set (merge_left tz d ops_per_sess sessions).
           o_channel_id r = p_channel_id p \<and> o_session_id r = p_session_id p
           \<and> o_autor_partner_id r = p_autor_partner_id p"
proof (cases "filter (\<lambda>s. s_channel_id s = p_channel_id p \<and> s_session_id s = p_session_id p) sessions")
  case Nil
  with assms have "joined tz d p None \<in> set (merge_left tz d ops_per_sess sessions)"
    unfolding merge_left_def set_concat by force
  then show ?thesis by (intro bexI [of _ "joined tz d p None"]) (simp_all add: joined_def)
next
  case (Cons m ms)
  with assms have "joined tz d p (Some m) \<in> set (merge_left tz d ops_per_sess sessions)"
    unfolding merge_left_def set_concat by force
  then show ?thesis by (intro bexI [of _ "joined tz d p (Some m)"]) (simp_all add: joined_def)
qed

lemma fl_0: "fl 0 = 0"
  by (simp add: fl_def)

lemma py_round_0: "py_round 0 = 0"
  by (simp add: py_round_def)

lemma no_minutes_no_hours:
  "o_dur_min r = 0 \<Longrightarrow> unit_amount (make_line_vals tz mode ops proj emp r) = 0"
  by (simp add: make_line_vals_def round2_def horas_asignadas_def min_asignados_def fl_0 py_round_0)

text \<open>
  C6, as the code has it. main attributes the rows of \<^verbatim>\<open>ops\<close>, and only when both tables
  have a row; \<^verbatim>\<open>ops\<close> has a row when \<^verbatim>\<open>ops_per_sess\<close> has one. Every session kept in \<^verbatim>\<open>sessions\<close> has an operator event and a non-operator
  event among the rows of its group, hence two events or more: a session without one of
  the roles, and so every session of one event, is not in the table. Every row of
  \<^verbatim>\<open>ops\<close> belongs to a session with an operator event: a session without one never reaches
  attribution. Every operator event has its row in \<^verbatim>\<open>ops\<close>, also when its session has no
  event of a customer. A row of \<^verbatim>\<open>ops\<close> whose session is not in \<^verbatim>\<open>sessions\<close> has the
  duration 0, the requested day as its date, and no hours in its record.
\<close>

theorem sessions_reaching_attribution:
  assumes "build_sessions_from_messages channels ip msgs (inactividad a) = Inr (sessions, ops_per_sess)"
    and "sdf = with_sessions (inactividad a) (ingest (ch_map_of channels) ip msgs)"
    and "ops = merge_left tz (fecha a) ops_per_sess sessions"
  shows "main tz a srv channels ip p2u u2e proj msgs L =
           (if sessions = [] \<or> ops_per_sess = [] then (Inr summary0, L)
            else process_rows tz a srv p2u u2e proj ops ops summary0 L)
    \<and> (ops = [] \<longleftrightarrow> ops_per_sess = [])
    \<and> (\<forall>s\<in>set sessions.
          (\<exists>r\<in>set (group_rows sdf (key_of s)). d_es_operador r)
          \<and> (\<exists>r\<in>set (group_rows sdf (key_of s)). \<not> d_es_operador r)
          \<and> s_msgs_total s = length (group_rows sdf (key_of s))
          \<and> 2 \<le> s_msgs_total s)
    \<and> (\<forall>r\<in>set ops. \<exists>x\<in>set sdf.
          d_es_operador (fst x) \<and> d_channel_id (fst x) = o_channel_id r \<and> snd x = o_session_id r)
    \<and> (\<forall>x\<in>set sdf. d_es_operador (fst x) \<longrightarrow>
          (\<exists>r\<in>set ops. o_channel_id r = d_channel_id (fst x) \<and> o_session_id r = snd x
             \<and> Some (o_autor_partner_id r) = d_autor_partner_id (fst x)))
    \<and> (\<forall>r\<in>set ops.
          (\<exists>s\<in>set sessions. s_channel_id s = o_channel_id r \<and> s_session_id s = o_session_id r)
          \<or> (o_dur_min r = 0 \<and> o_date_local r = fecha a
              \<and> unit_amount (make_line_vals tz (modo a) ops proj emp r) = 0))"
proof -
  let ?g = "\<lambda>s. group_rows sdf (key_of s)"
  from build_tables [OF assms(1)] assms(2) have tables: "sessions = sessions_of sdf"
    "ops_per_sess = ops_per_sess_of sdf"
    by simp_all
  have p1: "main tz a srv channels ip p2u u2e proj msgs L =
           (if sessions = [] \<or> ops_per_sess = [] then (Inr summary0, L)
            else process_rows tz a srv p2u u2e proj ops ops summary0 L)"
    unfolding assms(3) by (rule main_loop [OF assms(1)])
  have p0: "ops = [] \<longleftrightarrow> ops_per_sess = []"
  proof
    assume e: "ops = []"
    show "ops_per_sess = []"
    proof (rule ccontr)
      assume "ops_per_sess \<noteq> []"
      then obtain p where "p \<in> set ops_per_sess" by (cases ops_per_sess) auto
      from merge_left_keeps [OF this, of tz "fecha a" sessions] e assms(3) show False by simp
    qed
  next
    assume "ops_per_sess = []"
    with assms(3) show "ops = []" by (simp add: merge_left_def)
  qed
  have p2: "(\<exists>r\<in>set (?g s). d_es_operador r) \<and> (\<exists>r\<in>set (?g s). \<not> d_es_operador r)
      \<and> s_msgs_total s = length (?g s) \<and> 2 \<le> s_msgs_total s" if s: "s \<in> set sessions" for s
  proof -
    from s tables(1) have in_all: "s \<in> set (sessions_all sdf)"
      and pos: "0 < s_msgs_user s" "0 < s_msgs_oper s"
      by (simp_all add: sessions_of_def)
    from agg_member [OF sessions_all_member [OF in_all]] have
      m: "s_msgs_total s = length (?g s)" "s_msgs_oper s = length (filter d_es_operador (?g s))"
         "s_msgs_user s = length (filter (\<lambda>r. \<not> d_es_operador r) (?g s))"
      by simp_all
    from pos m have a: "\<exists>r\<in>set (?g s). d_es_operador r" and b: "\<exists>r\<in>set (?g s). \<not> d_es_operador r"
      by (auto simp: filter_empty_conv)
    from pos m have "2 \<le> length (?g s)" by (intro two_roles_two_rows [of d_es_operador]) simp_all
    with a b m show ?thesis by simp
  qed
  have p3: "\<exists>x\<in>set sdf. d_es_operador (fst x) \<and> d_channel_id (fst x) = o_channel_id r
      \<and> snd x = o_session_id r" if r: "r \<in> set ops" for r
  proof -
    from merge_left_source [OF r [unfolded assms(3)]] obtain p where p: "p \<in> set ops_per_sess"
      "o_channel_id r = p_channel_id p" "o_session_id r = p_session_id p"
      by (auto simp: joined_def)
    from p(1) tables(2) ops_per_sess_keys [of sdf]
    have "(p_channel_id p, p_session_id p, p_autor_partner_id p, p_autor p) \<in> set (op_keys sdf)"
      by blast
    from op_keys_operator [OF this] obtain x where "x \<in> set sdf" "d_es_operador (fst x)"
      "d_channel_id (fst x) = fst (p_channel_id p, p_session_id p, p_autor_partner_id p, p_autor p)"
      "snd x = fst (snd (p_channel_id p, p_session_id p, p_autor_partner_id p, p_autor p))"
      by blast
    with p(2,3) show ?thesis by (intro bexI [of _ x]) simp_all
  qed
  have p4: "\<exists>r\<in>set ops. o_channel_id r = d_channel_id (fst x) \<and> o_session_id r = snd x
      \<and> Some (o_autor_partner_id r) = d_autor_partner_id (fst x)"
    if x: "x \<in> set sdf" and o: "d_es_operador (fst x)" for x
  proof -
    from x assms(2) have "fst x \<in> set (ingest (ch_map_of channels) ip msgs)"
      by (simp add: with_sessions_fst)
    from ingest_authorless [OF this] o obtain q where q: "d_autor_partner_id (fst x) = Some q"
      by (cases "d_autor_partner_id (fst x)") auto
    from op_keys_complete [OF x o q] ops_per_sess_keys [of sdf] tables(2)
    have "(d_channel_id (fst x), snd x, q, d_autor (fst x))
        \<in> (\<lambda>p. (p_channel_id p, p_session_id p, p_autor_partner_id p, p_autor p)) ` set ops_per_sess"
      by simp
    then obtain p where p: "p \<in> set ops_per_sess" "p_channel_id p = d_channel_id (fst x)"
      "p_session_id p = snd x" "p_autor_partner_id p = q"
      by auto
    from merge_left_keeps [OF p(1), of tz "fecha a" sessions] p(2-4) q show ?thesis
      unfolding assms(3) by auto
  qed
  have p5: "(\<exists>s\<in>set sessions. s_channel_id s = o_channel_id r \<and> s_session_id s = o_session_id r)
      \<or> (o_dur_min r = 0 \<and> o_date_local r = fecha a
          \<and> unit_amount (make_line_vals tz (modo a) ops proj emp r) = 0)"
    if r: "r \<in> set ops" for r
  proof -
    from merge_left_source [OF r [unfolded assms(3)]] obtain p where
      "r = joined tz (fecha a) p None
       \<or> (\<exists>s\<in>set sessions. s_channel_id s = p_channel_id p \<and> s_session_id s = p_session_id p
             \<and> r = joined tz (fecha a) p (Some s))"
      by blast
    then show ?thesis
    proof
      assume "r = joined tz (fecha a) p None"
      then have "o_dur_min r = 0" "o_date_local r = fecha a"
        by (simp_all add: joined_def fillna_def)
      with no_minutes_no_hours [of r] show ?thesis by simp
    next
      assume "\<exists>s\<in>set sessions. s_channel_id s = p_channel_id p \<and> s_session_id s = p_session_id p
             \<and> r = joined tz (fecha a) p (Some s)"
      then show ?thesis by (auto simp: joined_def)
    qed
  qed
  from p1 p0 p2 p3 p4 p5 show ?thesis by blast
qed

theorem sessions_reaching_attribution_witness:
  "build_sessions_from_messages ex_channels ex_internal ex_msgs (inactividad ex_args)
     = Inr ([ex_session], [ex_ana, ex_beto])
   \<and> ex_ops = merge_left ex_tz (fecha ex_args) [ex_ana, ex_beto] [ex_session]
   \<and> main ex_tz ex_args no_fault ex_channels ex_internal ex_p2u ex_u2e 3 ex_msgs ex_ledger0
       = process_rows ex_tz ex_args no_fault ex_p2u ex_u2e 3 ex_ops ex_ops summary0 ex_ledger0
   \<and> 2 \<le> s_msgs_total ex_session
   \<and> (\<exists>x\<in>set (with_sessions (inactividad ex_args) (ingest (ch_map_of ex_channels) ex_internal ex_msgs)).
         d_es_operador (fst x) \<and> d_channel_id (fst x) = 2 \<and> snd x = 0)
   \<and> (\<exists>r\<in>set ex_ops. o_channel_id r = 2 \<and> o_session_id r = 0 \<and> o_autor_partner_id r = 11)
   \<and> (\<exists>s\<in>set [ex_session]. s_channel_id s = o_channel_id (ex_ops ! 0)
          \<and> s_session_id s = o_session_id (ex_ops ! 0))
   \<and> \<not> (\<exists>s\<in>set [ex_session]. s_channel_id s = o_channel_id (ex_ops ! 1)
          \<and> s_session_id s = o_session_id (ex_ops ! 1))
   \<and> o_dur_min (ex_ops ! 1) = 0 \<and> o_date_local (ex_ops ! 1) = fecha ex_args
   \<and> unit_amount (make_line_vals ex_tz (modo ex_args) ex_ops 3 8 (ex_ops ! 1)) = 0"
proof -
  let ?sdf = "with_sessions (inactividad ex_args) (ingest (ch_map_of ex_channels) ex_internal ex_msgs)"
  let ?x = "(\<lparr>d_msg_id = 3, d_channel_id = 2, d_canal = ''Beta'', fecha_local = 100,
               d_autor_partner_id = Some 11, d_autor = ''Beto'', d_es_operador = True\<rparr>, 0::int)"
  have b: "build_sessions_from_messages ex_channels ex_internal ex_msgs (inactividad ex_args)
      = Inr ([ex_session], [ex_ana, ex_beto])"
    by code_simp
  have m: "ex_ops = merge_left ex_tz (fecha ex_args) [ex_ana, ex_beto] [ex_session]"
    by code_simp
  have x: "?x \<in> set ?sdf"
    by code_simp
  have r0: "ex_ops ! 0 \<in> set ex_ops" and r1: "ex_ops ! 1 \<in> set ex_ops"
    by (simp_all add: ex_ops_def)
  have ana: "\<exists>s\<in>set [ex_session]. s_channel_id s = o_channel_id (ex_ops ! 0)
          \<and> s_session_id s = o_session_id (ex_ops ! 0)"
    by (simp add: ex_session_def ex_ops_def)
  have beto: "\<not> (\<exists>s\<in>set [ex_session]. s_channel_id s = o_channel_id (ex_ops ! 1)
          \<and> s_session_id s = o_session_id (ex_ops ! 1))"
    by (simp add: ex_session_def ex_ops_def)
  note t = sessions_reaching_attribution [OF b refl m, of no_fault ex_p2u ex_u2e 3 ex_ledger0 8]
  from t have t1: "main ex_tz ex_args no_fault ex_channels ex_internal ex_p2u ex_u2e 3 ex_msgs ex_ledger0
       = process_rows ex_tz ex_args no_fault ex_p2u ex_u2e 3 ex_ops ex_ops summary0 ex_ledger0"
    by simp
  from t have t2: "2 \<le> s_msgs_total ex_session"
    by simp
  from t r1 have "\<exists>x\<in>set ?sdf. d_es_operador (fst x)
      \<and> d_channel_id (fst x) = o_channel_id (ex_ops ! 1) \<and> snd x = o_session_id (ex_ops ! 1)"
    by blast
  then have t3: "\<exists>x\<in>set ?sdf. d_es_operador (fst x) \<and> d_channel_id (fst x) = 2 \<and> snd x = 0"
    by (simp add: ex_ops_def)
  from t x have "d_es_operador (fst ?x) \<longrightarrow>
      (\<exists>r\<in>set ex_ops. o_channel_id r = d_channel_id (fst ?x) \<and> o_session_id r = snd ?x
          \<and> Some (o_autor_partner_id r) = d_autor_partner_id (fst ?x))"
    by blast
  then have t4: "\<exists>r\<in>set ex_ops. o_channel_id r = 2 \<and> o_session_id r = 0 \<and> o_autor_partner_id r = 11"
    by simp
  from t r1 have "(\<exists>s\<in>set [ex_session]. s_channel_id s = o_channel_id (ex_ops ! 1)
          \<and> s_session_id s = o_session_id (ex_ops ! 1))
      \<or> (o_dur_min (ex_ops ! 1) = 0 \<and> o_date_local (ex_ops ! 1) = fecha ex_args
          \<and> unit_amount (make_line_vals ex_tz (modo ex_args) ex_ops 3 8 (ex_ops ! 1)) = 0)"
    by blast
  with beto have t5: "o_dur_min (ex_ops ! 1) = 0" "o_date_local (ex_ops ! 1) = fecha ex_args"
    "unit_amount (make_line_vals ex_tz (modo ex_args) ex_ops 3 8 (ex_ops ! 1)) = 0"
    by blast+
  from b m t1 t2 t3 t4 ana beto t5 show ?thesis
    by blast
qed

text \<open>
  C6 as stated fails: on the day above the only event of channel Beta is one message of
  the operator Beto. That session of one event is not in \<^verbatim>\<open>sessions\<close>, and main still
  writes a ledger record for it, with no hours.
\<close>

theorem one_event_session_attributed:
  "group_rows (with_sessions 45 (ingest (ch_map_of ex_channels) ex_internal ex_msgs)) (''Beta'', 2, 0)
     = [\<lparr>d_msg_id = 3, d_channel_id = 2, d_canal = ''Beta'', fecha_local = 100,
          d_autor_partner_id = Some 11, d_autor = ''Beto'', d_es_operador = True\<rparr>]
   \<and> build_sessions_from_messages ex_channels ex_internal ex_msgs 45
       = Inr ([ex_session], [ex_ana, ex_beto])
   \<and> (2, \<lparr>name = ''WhatsApp nan (0m) - Beto [WA[2/0]@11]'', date = 20000, unit_amount = 0,
            project_id = 3, employee_id = 8\<rparr>)
       \<in> set (lines (snd (main ex_tz ex_args no_fault ex_channels ex_internal ex_p2u ex_u2e 3 ex_msgs
                              ex_ledger0)))"
  by code_simp

section \<open>The hours of a record\<close>

text \<open>
  The hours of a record are rounded as Python rounds a double. A session of 162 seconds
  with one operator gives 0.05 hours: the double that stands for 0.045 lies above it,
  where the exact quotient is a tie and goes to 0.04. A session of 18 seconds gives 0.01.
\<close>

lemma hours_of_short_sessions:
  "unit_amount (make_line_vals ex_tz ''full'' ex_ops 3 7 ((ex_ops ! 0)\<lparr>o_dur_min := fl (162 / 60)\<rparr>))
     = fl (5 / 100)
   \<and> py_round (162 / 3600 * 100) = 4
   \<and> unit_amount (make_line_vals ex_tz ''full'' ex_ops 3 7 ((ex_ops ! 0)\<lparr>o_dur_min := fl (18 / 60)\<rparr>))
     = fl (1 / 100)
   \<and> py_round (18 / 3600 * 100) = 0"
  by code_simp

section \<open>Segmentation: the events after the first\<close>

text \<open>
  Every row has one session number. The first row of a channel, wherever it stands in
  the table, is no break and has the number 0. A later row of the channel is a break
  exactly when it comes more than the threshold after the previous row of the channel,
  and its number is that of the previous row, plus one when it is a break.
\<close>

lemma groupby_diff_length: "length (groupby_diff prev df) = length df"
  by (induction df arbitrary: prev) simp_all

lemma groupby_cumsum_length: "length (groupby_cumsum acc xs) = length xs"
  by (induction xs arbitrary: acc) (auto simp: Let_def)

lemma session_id_length: "length (session_id T df) = length df"
  by (simp add: session_id_def session_break_def groupby_cumsum_length groupby_diff_length)

lemma every_row_one_session: "map fst (with_sessions T df) = df"
  by (simp add: with_sessions_def session_id_length)

lemma groupby_diff_append:
  "groupby_diff prev (xs @ ys) =
     groupby_diff prev xs
       @ groupby_diff (fold (\<lambda>r m. m(d_channel_id r \<mapsto> fecha_local r)) xs prev) ys"
  by (induction xs arbitrary: prev) simp_all

lemma fold_seen_other:
  "\<forall>y\<in>set ys. d_channel_id y \<noteq> c \<Longrightarrow>
   fold (\<lambda>r m. m(d_channel_id r \<mapsto> fecha_local r)) ys m c = m c"
  by (induction ys arbitrary: m) simp_all

lemma groupby_cumsum_append:
  "groupby_cumsum acc (xs @ ys) =
     groupby_cumsum acc xs
       @ groupby_cumsum (fold (\<lambda>x a. a(fst x := a (fst x) + (if snd x then 1 else 0))) xs acc) ys"
  by (induction xs arbitrary: acc) (auto simp: Let_def)

lemma cumsum_nth:
  assumes "n < length kb"
  shows "groupby_cumsum acc kb ! n
         = fold (\<lambda>x a. a(fst x := a (fst x) + (if snd x then 1 else 0))) (take (Suc n) kb) acc
             (fst (kb ! n))"
proof -
  let ?step = "\<lambda>x a. a(fst x := a (fst x) + (if snd x then 1 else 0))"
  from assms have kb: "kb = take n kb @ kb ! n # drop (Suc n) kb"
    by (rule id_take_nth_drop)
  have "groupby_cumsum acc (take n kb @ kb ! n # drop (Suc n) kb) ! n
      = fold ?step (take n kb) acc (fst (kb ! n)) + (if snd (kb ! n) then 1 else 0)"
    using assms
    by (cases "kb ! n")
      (simp add: groupby_cumsum_append nth_append groupby_cumsum_length Let_def)
  also have "\<dots> = fold ?step (take (Suc n) kb) acc (fst (kb ! n))"
    using assms by (simp add: take_Suc_conv_app_nth)
  finally show ?thesis using kb by simp
qed

lemma fold_count_other:
  "\<forall>y\<in>set ys. fst y \<noteq> k \<Longrightarrow>
   fold (\<lambda>x a. a(fst x := a (fst x) + (if snd x then 1 else 0))) ys a k = a k"
  by (induction ys arbitrary: a) auto

lemma cumsum_step:
  assumes "i < j" and "j < length kb" and "fst (kb ! i) = fst (kb ! j)"
    and "\<forall>m. i < m \<and> m < j \<longrightarrow> fst (kb ! m) \<noteq> fst (kb ! j)"
  shows "groupby_cumsum acc kb ! j
         = groupby_cumsum acc kb ! i + (if snd (kb ! j) then 1 else 0)"
proof -
  let ?step = "\<lambda>x a. a(fst x := a (fst x) + (if snd x then 1 else 0))"
  let ?k = "fst (kb ! j)"
  let ?mid = "take (j - Suc i) (drop (Suc i) kb)"
  from assms(1,2) have split: "take j kb = take (Suc i) kb @ ?mid"
    by (metis Suc_leI le_add_diff_inverse take_add)
  have "\<forall>y\<in>set ?mid. fst y \<noteq> ?k"
  proof
    fix y assume "y \<in> set ?mid"
    then obtain n where n: "n < length ?mid" "y = ?mid ! n" by (metis in_set_conv_nth)
    with assms(1,2) have "y = kb ! (Suc i + n)" "Suc i + n < j" by simp_all
    with assms(4) show "fst y \<noteq> ?k" by simp
  qed
  then have same: "fold ?step (take j kb) acc ?k = fold ?step (take (Suc i) kb) acc ?k"
    unfolding split by (simp add: fold_count_other)
  from assms(2) have "groupby_cumsum acc kb ! j = fold ?step (take (Suc j) kb) acc ?k"
    by (rule cumsum_nth)
  also from assms(2) have "\<dots> = fold ?step (take j kb) acc ?k + (if snd (kb ! j) then 1 else 0)"
    by (simp add: take_Suc_conv_app_nth)
  finally have a: "groupby_cumsum acc kb ! j
      = fold ?step (take (Suc i) kb) acc ?k + (if snd (kb ! j) then 1 else 0)"
    using same by simp
  from assms(1,2) have "i < length kb" by simp
  from cumsum_nth [OF this, of acc] assms(3)
  have "fold ?step (take (Suc i) kb) acc ?k = groupby_cumsum acc kb ! i" by simp
  with a show ?thesis by simp
qed

lemma cumsum_first:
  assumes "j < length kb" and "\<forall>m<j. fst (kb ! m) \<noteq> fst (kb ! j)"
  shows "groupby_cumsum acc kb ! j = acc (fst (kb ! j)) + (if snd (kb ! j) then 1 else 0)"
proof -
  let ?step = "\<lambda>x a. a(fst x := a (fst x) + (if snd x then 1 else 0))"
  have "\<forall>y\<in>set (take j kb). fst y \<noteq> fst (kb ! j)"
  proof
    fix y assume "y \<in> set (take j kb)"
    then obtain n where "n < length (take j kb)" "y = take j kb ! n" by (metis in_set_conv_nth)
    with assms show "fst y \<noteq> fst (kb ! j)" by simp
  qed
  then have "fold ?step (take j kb) acc (fst (kb ! j)) = acc (fst (kb ! j))"
    by (rule fold_count_other)
  with cumsum_nth [OF assms(1), of acc] assms(1) show ?thesis
    by (simp add: take_Suc_conv_app_nth)
qed

lemma diff_nth:
  assumes "n < length df"
  shows "groupby_diff prev df ! n
         = (case fold (\<lambda>r m. m(d_channel_id r \<mapsto> fecha_local r)) (take n df) prev
                   (d_channel_id (df ! n)) of
              None \<Rightarrow> None
            | Some p \<Rightarrow> Some (fecha_local (df ! n) - p))"
proof -
  from assms have df: "df = take n df @ df ! n # drop (Suc n) df"
    by (rule id_take_nth_drop)
  have "groupby_diff prev (take n df @ df ! n # drop (Suc n) df) ! n
      = (case fold (\<lambda>r m. m(d_channel_id r \<mapsto> fecha_local r)) (take n df) prev
                   (d_channel_id (df ! n)) of
              None \<Rightarrow> None
            | Some p \<Rightarrow> Some (fecha_local (df ! n) - p))"
    using assms by (simp add: groupby_diff_append nth_append groupby_diff_length)
  with df show ?thesis by simp
qed

lemma prefix_without_channel:
  assumes "j \<le> length df" and "\<forall>m<j. d_channel_id (df ! m) \<noteq> c"
  shows "\<forall>y\<in>set (take j df). d_channel_id y \<noteq> c"
proof
  fix y assume "y \<in> set (take j df)"
  then obtain n where "n < length (take j df)" "y = take j df ! n" by (metis in_set_conv_nth)
  with assms show "d_channel_id y \<noteq> c" by simp
qed

lemma seen_last:
  assumes "i < j" and "j \<le> length df" and "d_channel_id (df ! i) = c"
    and "\<forall>m. i < m \<and> m < j \<longrightarrow> d_channel_id (df ! m) \<noteq> c"
  shows "fold (\<lambda>r m. m(d_channel_id r \<mapsto> fecha_local r)) (take j df) prev c
         = Some (fecha_local (df ! i))"
proof -
  let ?step = "\<lambda>r m. m(d_channel_id r \<mapsto> fecha_local r)"
  let ?mid = "take (j - Suc i) (drop (Suc i) df)"
  from assms(1,2) have "take j df = take (Suc i) df @ ?mid"
    by (metis Suc_leI le_add_diff_inverse take_add)
  moreover from assms(1,2) have "take (Suc i) df = take i df @ [df ! i]"
    by (simp add: take_Suc_conv_app_nth)
  ultimately have split: "take j df = take i df @ df ! i # ?mid" by simp
  have "\<forall>y\<in>set ?mid. d_channel_id y \<noteq> c"
  proof
    fix y assume "y \<in> set ?mid"
    then obtain n where n: "n < length ?mid" "y = ?mid ! n" by (metis in_set_conv_nth)
    with assms(1,2) have "y = df ! (Suc i + n)" "Suc i + n < j" by simp_all
    with assms(4) show "d_channel_id y \<noteq> c" by simp
  qed
  from fold_seen_other [OF this] assms(3) show ?thesis
    unfolding split by simp
qed

lemma first_of_channel_ordinal:
  assumes "j < length df" and "\<forall>m<j. d_channel_id (df ! m) \<noteq> d_channel_id (df ! j)"
  shows "\<not> session_break T df ! j \<and> session_id T df ! j = 0"
proof -
  let ?kb = "zip (map d_channel_id df) (session_break T df)"
  have len: "length (session_break T df) = length df"
    by (simp add: session_break_def groupby_diff_length)
  from assms have "\<forall>y\<in>set (take j df). d_channel_id y \<noteq> d_channel_id (df ! j)"
    by (intro prefix_without_channel) simp_all
  then have "fold (\<lambda>r m. m(d_channel_id r \<mapsto> fecha_local r)) (take j df) Map.empty
      (d_channel_id (df ! j)) = None"
    by (simp add: fold_seen_other)
  with diff_nth [OF assms(1), of Map.empty] have "groupby_diff Map.empty df ! j = None"
    by simp
  with assms(1) have nb: "\<not> session_break T df ! j"
    by (simp add: session_break_def groupby_diff_length gt_def fillna_def total_minutes_def)
  from assms len have "j < length ?kb" and "\<forall>m<j. fst (?kb ! m) \<noteq> fst (?kb ! j)"
    by simp_all
  from cumsum_first [OF this, of "\<lambda>_. 0"] assms(1) len nb have "session_id T df ! j = 0"
    by (simp add: session_id_def)
  with nb show ?thesis by simp
qed

lemma next_of_channel_ordinal:
  assumes "i < j" and "j < length df" and "d_channel_id (df ! i) = d_channel_id (df ! j)"
    and "\<forall>m. i < m \<and> m < j \<longrightarrow> d_channel_id (df ! m) \<noteq> d_channel_id (df ! j)"
  shows "(session_break T df ! j
          \<longleftrightarrow> of_int T * 60 < (of_int (fecha_local (df ! j) - fecha_local (df ! i)) :: rat))
    \<and> session_id T df ! j = session_id T df ! i + (if session_break T df ! j then 1 else 0)"
proof -
  let ?kb = "zip (map d_channel_id df) (session_break T df)"
  have len: "length (session_break T df) = length df"
    by (simp add: session_break_def groupby_diff_length)
  from assms(1,2) have "j \<le> length df" by simp
  from seen_last [OF assms(1) this assms(3,4), of Map.empty] diff_nth [OF assms(2), of Map.empty]
  have "groupby_diff Map.empty df ! j = Some (fecha_local (df ! j) - fecha_local (df ! i))"
    by simp
  with assms(2) have br: "session_break T df ! j
      \<longleftrightarrow> of_int T * 60 < (of_int (fecha_local (df ! j) - fecha_local (df ! i)) :: rat)"
    by (simp add: session_break_def groupby_diff_length gt_def fillna_def total_minutes_def
        pos_less_divide_eq)
  from assms len have "i < j" "j < length ?kb" "fst (?kb ! i) = fst (?kb ! j)"
    "\<forall>m. i < m \<and> m < j \<longrightarrow> fst (?kb ! m) \<noteq> fst (?kb ! j)"
    by simp_all
  from cumsum_step [OF this, of "\<lambda>_. 0"] assms(1,2) len
  have "session_id T df ! j = session_id T df ! i + (if session_break T df ! j then 1 else 0)"
    by (simp add: session_id_def)
  with br show ?thesis by simp
qed

end
